theory Spec2Isabelle
  imports Main "HOL-Library.Word"
begin

section \<open>The framebuffer character driver, drivers/video/fb.c\<close>

text \<open>
  A shallow embedding of the NuttX framebuffer character driver. Every C function that a
  property below talks about is a HOL function of the same name. State that the C code
  mutates through pointers is passed in and returned. Three ways of leaving a function are
  kept apart: returning (\<open>Done\<close>), stopping on a \<open>DEBUGASSERT\<close> that is compiled in and
  false (\<open>AssertFail\<close>), and behaviour that C leaves undefined, such as indexing the
  pan-info array out of range (\<open>Undefined\<close>).
\<close>

subsection \<open>Outcomes, configuration, error numbers\<close>

datatype 'a outcome = Done 'a | AssertFail | Undefined

fun bind_outcome :: "'a outcome \<Rightarrow> ('a \<Rightarrow> 'b outcome) \<Rightarrow> 'b outcome" where
  "bind_outcome (Done x) f = f x"
| "bind_outcome AssertFail f = AssertFail"
| "bind_outcome Undefined f = Undefined"

text \<open>
  The build configuration. \<open>DEBUGASSERT\<close> is a macro of assert.h, which is not part of the
  sources at hand: it checks its condition when \<open>CONFIG_DEBUG_ASSERTIONS\<close> is set and
  expands to nothing otherwise, so the switch is a parameter. \<open>paninfo_size\<close> stands for
  \<open>sizeof(union fb_paninfo_u)\<close>, \<open>npollwaiters\<close> for \<open>CONFIG_VIDEO_FB_NPOLLWAITERS\<close>.
\<close>

record config =
  debug_assertions :: bool
  fb_overlay :: bool
  npollwaiters :: nat
  paninfo_size :: nat

text \<open>The error numbers of errno.h that the driver returns negated, and \<open>FB_NO_OVERLAY\<close>.\<close>

definition OK :: int where "OK = 0"
definition ENOMEM :: int where "ENOMEM = 12"
definition EINVAL :: int where "EINVAL = 22"
definition ENOTTY :: int where "ENOTTY = 25"
definition EFBIG :: int where "EFBIG = 27"
definition ENOSPC :: int where "ENOSPC = 28"
definition FB_NO_OVERLAY :: int where "FB_NO_OVERLAY = - 1"

type_synonym byte = "8 word"

subsection \<open>The ring buffer collaborator (nuttx/mm/circbuf.h)\<close>

text \<open>
  Modelled from the spec: the circular buffer of mm/circbuf is not among the sources. The
  spec describes it as a fixed-capacity first-in-first-out byte queue exposing
  write, peek, skip, used-bytes and is-full, each transfer returning the number of bytes
  transferred or a non-positive failure indicator. The queue holds its bytes oldest first;
  a transfer moves as many of the requested bytes as fit (write) or are there (peek, skip)
  and returns that count, which is 0 when nothing could be moved. The driver hands
  \<open>circbuf_init\<close> no storage, so the ring buffer allocates its own (nothing for a
  capacity of 0); whether that succeeds is an input. When it does not, \<open>circbuf_init\<close>
  returns \<open>-ENOMEM\<close> and does not touch the structure, which the driver had allocated
  zeroed: a buffer of capacity 0.
\<close>

record circbuf_s =
  cb_size :: nat
  cb_data :: "byte list"

definition circbuf_init :: "bool \<Rightarrow> nat \<Rightarrow> int \<times> circbuf_s" where
  "circbuf_init alloc_ok bytes =
     (if bytes \<noteq> 0 \<and> \<not> alloc_ok then (- ENOMEM, \<lparr>cb_size = 0, cb_data = []\<rparr>)
      else (0, \<lparr>cb_size = bytes, cb_data = []\<rparr>))"

definition circbuf_used :: "circbuf_s \<Rightarrow> nat" where
  "circbuf_used c = length (cb_data c)"

definition circbuf_space :: "circbuf_s \<Rightarrow> nat" where
  "circbuf_space c = cb_size c - circbuf_used c"


definition circbuf_write :: "circbuf_s \<Rightarrow> byte list \<Rightarrow> nat \<Rightarrow> circbuf_s \<times> int" where
  "circbuf_write c src bytes =
     (let n = min bytes (circbuf_space c)
      in (c\<lparr>cb_data := cb_data c @ take n src\<rparr>, int n))"

definition circbuf_peek :: "circbuf_s \<Rightarrow> byte list \<Rightarrow> nat \<Rightarrow> byte list \<times> int" where
  "circbuf_peek c dst bytes =
     (let n = min bytes (circbuf_used c)
      in (take n (cb_data c) @ drop n dst, int n))"

definition circbuf_skip :: "circbuf_s \<Rightarrow> nat \<Rightarrow> circbuf_s \<times> int" where
  "circbuf_skip c bytes =
     (let n = min bytes (circbuf_used c)
      in (c\<lparr>cb_data := drop n (cb_data c)\<rparr>, int n))"

subsection \<open>Driver state\<close>

text \<open>
  A poll waiter (\<open>struct pollfd *\<close>) is named by a number; \<open>None\<close> is the null pointer.
  The readiness mask the driver signals is always \<open>POLLOUT\<close>.
\<close>

datatype pollevent = POLLOUT

type_synonym signals = "(nat \<times> pollevent) list"

record fb_paninfo_s =
  buf :: circbuf_s
  fds :: "nat option list"

text \<open>
  \<open>struct fb_chardev_s\<close>. The watchdog \<open>wdog\<close> is either idle (\<open>None\<close>) or armed with a
  delay in ticks and the argument of its callback, which the driver always makes the
  address of a pan-info slot, kept here as the slot's index. \<open>crefs\<close> is an \<open>int16_t\<close>.
  The field \<open>paninfo_count\<close> is the length of the array \<open>paninfo\<close>.
\<close>

record fb_chardev_s =
  plane :: "8 word"
  vsyncoffset :: nat
  wdog :: "(nat \<times> nat) option"
  crefs :: "16 word"
  paninfo :: "fb_paninfo_s list"

definition paninfo_count :: "fb_chardev_s \<Rightarrow> nat" where
  "paninfo_count fb = length (paninfo fb)"

definition set_buf :: "fb_chardev_s \<Rightarrow> nat \<Rightarrow> circbuf_s \<Rightarrow> fb_chardev_s" where
  "set_buf fb i b = fb\<lparr>paninfo := (paninfo fb)[i := (paninfo fb ! i)\<lparr>buf := b\<rparr>]\<rparr>"

definition set_fds :: "fb_chardev_s \<Rightarrow> nat \<Rightarrow> nat option list \<Rightarrow> fb_chardev_s" where
  "set_fds fb i f = fb\<lparr>paninfo := (paninfo fb)[i := (paninfo fb ! i)\<lparr>fds := f\<rparr>]\<rparr>"

subsection \<open>Resolving a surface to its pan-info slot\<close>

text \<open>
  \<open>fb_get_panbuf\<close> returns the address of \<open>fb->paninfo[id].buf\<close>, here the index \<open>id\<close>
  under \<open>Some\<close>; the function has no path that returns \<open>NULL\<close>. Outside the array the
  assertion stops a debug build, and a build without assertions forms a pointer outside
  the array. (\<open>overlay + 1\<close> is computed on \<open>int\<close>; were it to wrap at \<open>INT_MAX\<close> the
  result would be negative and so outside the array all the same.)
\<close>

definition fb_get_panbuf :: "config \<Rightarrow> fb_chardev_s \<Rightarrow> int \<Rightarrow> nat option outcome" where
  "fb_get_panbuf cfg fb overlay =
     (let slot = overlay + 1
      in if 0 \<le> slot \<and> slot < int (paninfo_count fb) then Done (Some (nat slot))
         else if debug_assertions cfg then AssertFail
         else Undefined)"



subsection \<open>The pan-info queue\<close>

text \<open>
  The queue functions receive the vtable; its back pointer \<open>vtable->priv\<close> is \<open>None\<close>
  before registration and the device afterwards. A pan record is the
  \<open>sizeof(union fb_paninfo_u)\<close> bytes of the union.
\<close>

definition fb_add_paninfo ::
  "config \<Rightarrow> fb_chardev_s option \<Rightarrow> byte list \<Rightarrow> int \<Rightarrow> (int \<times> fb_chardev_s option) outcome" where
  "fb_add_paninfo cfg priv info overlay =
     (case priv of
        None \<Rightarrow> Done (- EINVAL, None)
      | Some fb \<Rightarrow>
          bind_outcome (fb_get_panbuf cfg fb overlay) (\<lambda>panbuf.
            case panbuf of
              None \<Rightarrow> Done (- EINVAL, Some fb)
            | Some i \<Rightarrow>
                (let (b, ret) = circbuf_write (buf (paninfo fb ! i)) info (paninfo_size cfg)
                 in if debug_assertions cfg \<and> ret \<noteq> int (paninfo_size cfg) then AssertFail
                    else Done (if ret \<le> 0 then - ENOSPC else OK, Some (set_buf fb i b)))))"

definition fb_peek_paninfo ::
  "config \<Rightarrow> fb_chardev_s option \<Rightarrow> byte list \<Rightarrow> int \<Rightarrow> (int \<times> byte list) outcome" where
  "fb_peek_paninfo cfg priv info overlay =
     (case priv of
        None \<Rightarrow> Done (- EINVAL, info)
      | Some fb \<Rightarrow>
          bind_outcome (fb_get_panbuf cfg fb overlay) (\<lambda>panbuf.
            case panbuf of
              None \<Rightarrow> Done (- EINVAL, info)
            | Some i \<Rightarrow>
                (let (info', ret) = circbuf_peek (buf (paninfo fb ! i)) info (paninfo_size cfg)
                 in if debug_assertions cfg \<and> \<not> (ret \<le> 0 \<or> ret = int (paninfo_size cfg))
                    then AssertFail
                    else Done (if ret \<le> 0 then - ENOSPC else OK, info'))))"

text \<open>The loop of \<open>fb_do_pollnotify\<close>: every non-null entry is signalled, in array order.\<close>

primrec notify_loop :: "nat option list \<Rightarrow> signals" where
  "notify_loop [] = []"
| "notify_loop (f # fs) =
     (case f of None \<Rightarrow> notify_loop fs | Some w \<Rightarrow> (w, POLLOUT) # notify_loop fs)"

definition fb_do_pollnotify :: "config \<Rightarrow> fb_paninfo_s \<Rightarrow> signals" where
  "fb_do_pollnotify cfg p = notify_loop (take (npollwaiters cfg) (fds p))"

text \<open>
  Modelled from the spec: the watchdog timer of sched/wdog is not among the sources. The
  spec describes it as a one-shot deferred callback, where arming an armed timer again
  replaces its deadline. \<open>wd_start\<close> arms the timer; \<open>wd_expire\<close> is the timer running
  out: the callback \<open>fb_do_pollnotify\<close> runs once on the stored argument and the timer is
  idle again.
\<close>

definition wd_start :: "(nat \<times> nat) option \<Rightarrow> nat \<Rightarrow> nat \<Rightarrow> (nat \<times> nat) option" where
  "wd_start w delay arg = Some (delay, arg)"

definition wd_expire :: "config \<Rightarrow> fb_chardev_s \<Rightarrow> (fb_chardev_s \<times> signals) outcome" where
  "wd_expire cfg fb =
     (case wdog fb of
        None \<Rightarrow> Done (fb, [])
      | Some (delay, arg) \<Rightarrow>
          if arg < paninfo_count fb
          then Done (fb\<lparr>wdog := None\<rparr>, fb_do_pollnotify cfg (paninfo fb ! arg))
          else Undefined)"

definition fb_pollnotify ::
  "config \<Rightarrow> fb_chardev_s option \<Rightarrow> int \<Rightarrow> (fb_chardev_s option \<times> signals) outcome" where
  "fb_pollnotify cfg priv overlay =
     (case priv of
        None \<Rightarrow> Done (None, [])
      | Some fb \<Rightarrow>
          (let slot = overlay + 1
           in if \<not> (0 \<le> slot \<and> slot < int (paninfo_count fb)) then
                (if debug_assertions cfg then AssertFail else Undefined)
              else if vsyncoffset fb > 0 then
                Done (Some (fb\<lparr>wdog := wd_start (wdog fb) (vsyncoffset fb) (nat slot)\<rparr>), [])
              else Done (Some fb, fb_do_pollnotify cfg (paninfo fb ! nat slot))))"

definition fb_remove_paninfo ::
  "config \<Rightarrow> fb_chardev_s option \<Rightarrow> int \<Rightarrow> (int \<times> fb_chardev_s option \<times> signals) outcome" where
  "fb_remove_paninfo cfg priv overlay =
     (case priv of
        None \<Rightarrow> Done (- EINVAL, None, [])
      | Some fb \<Rightarrow>
          bind_outcome (fb_get_panbuf cfg fb overlay) (\<lambda>panbuf.
            case panbuf of
              None \<Rightarrow> Done (- EINVAL, Some fb, [])
            | Some i \<Rightarrow>
                (let (b, ret) = circbuf_skip (buf (paninfo fb ! i)) (paninfo_size cfg);
                     fb' = set_buf fb i b
                 in if debug_assertions cfg \<and> \<not> (ret \<le> 0 \<or> ret = int (paninfo_size cfg))
                    then AssertFail
                    else if ret = int (paninfo_size cfg) then
                      bind_outcome (fb_pollnotify cfg (Some fb') overlay) (\<lambda>(priv', sigs).
                        Done (if ret \<le> 0 then - ENOSPC else OK, priv', sigs))
                    else Done (if ret \<le> 0 then - ENOSPC else OK, Some fb', []))))"

definition fb_paninfo_count :: "config \<Rightarrow> fb_chardev_s option \<Rightarrow> int \<Rightarrow> int outcome" where
  "fb_paninfo_count cfg priv overlay =
     (case priv of
        None \<Rightarrow> Done (- EINVAL)
      | Some fb \<Rightarrow>
          bind_outcome (fb_get_panbuf cfg fb overlay) (\<lambda>panbuf.
            case panbuf of
              None \<Rightarrow> Done (- EINVAL)
            | Some i \<Rightarrow> Done (int (circbuf_used (buf (paninfo fb ! i)) div paninfo_size cfg))))"

subsection \<open>The hardware interface (nuttx/video/fb.h)\<close>

text \<open>
  The structures that the hardware fills in are declared in nuttx/video/fb.h, which is not
  among the sources; only the fields that the driver reads are kept, and coordinates and
  counts are natural numbers. \<open>size_t\<close> and \<open>off_t\<close> are 32 bits wide, as on the ILP32
  targets of the system.
\<close>

type_synonym size_t = "32 word"

record fb_videoinfo_s =
  yres :: nat
  nplanes :: nat
  noverlays :: nat

record fb_planeinfo_s =
  p_fbmem :: nat
  p_fblen :: size_t
  p_yres_virtual :: nat
  p_bpp :: "8 word"

record fb_overlayinfo_s =
  o_fbmem :: nat
  o_fblen :: size_t
  o_yres_virtual :: nat
  o_yres :: nat
  o_bpp :: "8 word"
  o_overlay :: nat

record fb_panelinfo_s =
  fbmem :: nat
  fblen :: size_t
  fbcount :: "8 word"
  bpp :: "8 word"

text \<open>
  \<open>struct fb_vtable_s\<close>, the operations of the hardware. The two mandatory queries are
  functions of their arguments; optional operations are \<open>None\<close> when the pointer is null.
  The operations that act on the hardware take and return its state \<open>'hw\<close>;
  \<open>panoverlay\<close> receives a pointer to the caller's overlay info and may write to it.
\<close>

record 'hw fb_vtable_s =
  getvideoinfo :: "int \<times> fb_videoinfo_s"
  getplaneinfo :: "nat \<Rightarrow> nat \<Rightarrow> int \<times> fb_planeinfo_s"
  getoverlayinfo :: "(int \<Rightarrow> int \<times> fb_overlayinfo_s) option"
  vt_open :: "('hw \<Rightarrow> int \<times> 'hw) option"
  vt_close :: "('hw \<Rightarrow> int \<times> 'hw) option"
  pandisplay :: "(fb_planeinfo_s \<Rightarrow> 'hw \<Rightarrow> int \<times> 'hw) option"
  panoverlay :: "(fb_overlayinfo_s \<Rightarrow> 'hw \<Rightarrow> int \<times> 'hw \<times> fb_overlayinfo_s) option"
  vt_ioctl :: "('hw \<Rightarrow> int \<times> 'hw) option"

definition fb_get_planeinfo ::
  "'hw fb_vtable_s \<Rightarrow> fb_chardev_s \<Rightarrow> nat \<Rightarrow> int \<times> fb_planeinfo_s" where
  "fb_get_planeinfo vt fb display =
     (let (ret, pinfo) = getplaneinfo vt (unat (plane fb)) display
      in if ret < 0 then (ret, pinfo) else (OK, pinfo))"

text \<open>
  \<open>fb_get_panelinfo\<close> returns its status and, on success, the panel info it filled in.
  The buffer count is a quotient stored in a \<open>uint8_t\<close>; a zero divisor is undefined in C.
\<close>

definition fb_get_panelinfo ::
  "config \<Rightarrow> 'hw fb_vtable_s \<Rightarrow> fb_chardev_s \<Rightarrow> int \<Rightarrow> (int \<times> fb_panelinfo_s option) outcome" where
  "fb_get_panelinfo cfg vt fb overlay =
     (if fb_overlay cfg \<and> overlay \<noteq> FB_NO_OVERLAY then
        (case getoverlayinfo vt of
           None \<Rightarrow> if debug_assertions cfg then AssertFail else Undefined
         | Some get \<Rightarrow>
             (let (ret, oinfo) = get overlay
              in if ret < 0 then Done (ret, None)
                 else if o_yres_virtual oinfo \<noteq> 0 \<and> o_yres oinfo = 0 then Undefined
                 else Done (OK, Some \<lparr>fbmem = o_fbmem oinfo, fblen = o_fblen oinfo,
                        fbcount = (if o_yres_virtual oinfo = 0 then 1
                                   else of_nat (o_yres_virtual oinfo div o_yres oinfo)),
                        bpp = o_bpp oinfo\<rparr>)))
      else
        (let (ret, pinfo) = fb_get_planeinfo vt fb 0
         in if ret < 0 then Done (ret, None)
            else
              (let (ret, vinfo) = getvideoinfo vt
               in if ret < 0 then Done (ret, None)
                  else if p_yres_virtual pinfo \<noteq> 0 \<and> yres vinfo = 0 then Undefined
                  else Done (OK, Some \<lparr>fbmem = p_fbmem pinfo, fblen = p_fblen pinfo,
                         fbcount = (if p_yres_virtual pinfo = 0 then 1
                                    else of_nat (p_yres_virtual pinfo div yres vinfo)),
                         bpp = p_bpp pinfo\<rparr>))))"

subsection \<open>Registration\<close>

text \<open>
  The loop of \<open>fb_register_device\<close> over the pan-info slots: slot \<open>i\<close> gets a ring buffer
  of \<open>fbcount * sizeof(union fb_paninfo_u)\<close> bytes for surface \<open>i - 1\<close>; its waiter array
  is all null, since the array was allocated zeroed. A failing query ends the loop with
  its status, and the buffers made so far are destroyed. The status of \<open>circbuf_init\<close> is
  looked at by an assertion only; \<open>alloc_buf i\<close> says whether the allocation of the ring
  buffer of slot \<open>i\<close> succeeds.
\<close>

fun fb_init_slots ::
  "config \<Rightarrow> 'hw fb_vtable_s \<Rightarrow> (nat \<Rightarrow> bool) \<Rightarrow> fb_chardev_s \<Rightarrow> nat list
     \<Rightarrow> fb_paninfo_s list \<Rightarrow> (int \<times> fb_paninfo_s list) outcome" where
  "fb_init_slots cfg vt alloc_buf fb [] acc = Done (0, acc)"
| "fb_init_slots cfg vt alloc_buf fb (i # is) acc =
     bind_outcome (fb_get_panelinfo cfg vt fb (int i - 1)) (\<lambda>(ret, panelinfo).
       case panelinfo of
         None \<Rightarrow> Done (ret, [])
       | Some pnl \<Rightarrow>
           (let (r, b) = circbuf_init (alloc_buf i) (unat (fbcount pnl) * paninfo_size cfg)
            in if debug_assertions cfg \<and> r \<noteq> 0 then AssertFail
               else fb_init_slots cfg vt alloc_buf fb is
                      (acc @ [\<lparr>buf = b, fds = replicate (npollwaiters cfg) None\<rparr>])))"

text \<open>
  \<open>fb_register_device\<close> returns its status and the back pointer \<open>vtable->priv\<close> it leaves.
  The allocations and \<open>register_driver\<close> belong to the rest of the kernel; whether they
  succeed is an input. The device name and the clearing of the frame memory are left out.
\<close>

definition fb_register_device ::
  "config \<Rightarrow> 'hw fb_vtable_s \<Rightarrow> bool \<Rightarrow> bool \<Rightarrow> (nat \<Rightarrow> bool) \<Rightarrow> int \<Rightarrow> int
     \<Rightarrow> (int \<times> fb_chardev_s option) outcome" where
  "fb_register_device cfg vt alloc_fb alloc_paninfo alloc_buf register_ret plane_no =
     (if \<not> alloc_fb then Done (- ENOMEM, None)
      else if debug_assertions cfg \<and> \<not> (0 \<le> plane_no \<and> plane_no \<le> 255) then AssertFail
      else
        (let fb = \<lparr>plane = of_int plane_no, vsyncoffset = 0, wdog = None, crefs = 0,
                   paninfo = []\<rparr>;
             (ret, vinfo) = getvideoinfo vt
         in if ret < 0 then Done (ret, None)
            else if debug_assertions cfg \<and>
                    \<not> (nplanes vinfo > 0 \<and> 0 \<le> plane_no \<and> plane_no < int (nplanes vinfo))
              then AssertFail
            else if \<not> alloc_paninfo then Done (ret, None)
            else
              bind_outcome
                (fb_init_slots cfg vt alloc_buf fb
                   [0 ..< (if fb_overlay cfg then noverlays vinfo else 0) + 1] [])
                (\<lambda>(r, slots).
                   if r < 0 then Done (r, None)
                   else if register_ret < 0 then Done (register_ret, None)
                   else Done (OK, Some (fb\<lparr>paninfo := slots\<rparr>)))))"

subsection \<open>Open and close\<close>

text \<open>
  \<open>struct file\<close> with the two fields the driver uses: the position \<open>f_pos\<close> and the
  per-open-file state \<open>f_priv\<close>, which is \<open>None\<close> while the file has no such state:
  before open, when the pointer is null, and again once close has freed the state, after
  which the file system lets go of the file and does not hand it to the driver again.
\<close>

record fb_priv_s =
  overlay :: int

record file_s =
  f_pos :: size_t
  f_priv :: "fb_priv_s option"

text \<open>
  Which hardware hook a call invoked is returned beside its result, so that invocations
  can be counted. Whether \<open>nxmutex_lock\<close> and \<open>kmm_zalloc\<close> succeed is an input:
  \<open>lock_ret\<close> is the value the lock returns, \<open>alloc_ok\<close> says that memory was there.
\<close>

datatype hook_call = HwOpen | HwClose

definition fb_open ::
  "config \<Rightarrow> 'hw fb_vtable_s \<Rightarrow> int \<Rightarrow> bool \<Rightarrow> fb_chardev_s \<times> 'hw \<Rightarrow> file_s
     \<Rightarrow> (int \<times> (fb_chardev_s \<times> 'hw) \<times> file_s \<times> hook_call list) outcome" where
  "fb_open cfg vt lock_ret alloc_ok st filep =
     (let (fb, h) = st
      in if lock_ret < 0 then Done (lock_ret, st, filep, [])
         else if \<not> alloc_ok then Done (- ENOMEM, st, filep, [])
         else
           (let (ret, h', called) =
                  (if crefs fb = 0 then
                     (case vt_open vt of
                        None \<Rightarrow> (lock_ret, h, [])
                      | Some hook \<Rightarrow> (let (r, h') = hook h in (r, h', [HwOpen])))
                   else (lock_ret, h, []))
            in if ret < 0 then Done (ret, (fb, h'), filep, called)
               else
                 (let fb' = fb\<lparr>crefs := crefs fb + 1\<rparr>
                  in if debug_assertions cfg \<and> \<not> 0 < sint (crefs fb') then AssertFail
                     else Done (0, (fb', h'),
                            filep\<lparr>f_priv := Some \<lparr>overlay = FB_NO_OVERLAY\<rparr>\<rparr>, called))))"

text \<open>
  The file system calls \<open>fb_close\<close> on a file that \<open>fb_open\<close> has set up. On a file
  whose \<open>f_priv\<close> is null the assertion fails; without assertions the close goes on as on
  any other file, the counter is decremented, and freeing the null pointer does nothing.
\<close>

definition fb_close ::
  "config \<Rightarrow> 'hw fb_vtable_s \<Rightarrow> int \<Rightarrow> fb_chardev_s \<times> 'hw \<Rightarrow> file_s
     \<Rightarrow> (int \<times> (fb_chardev_s \<times> 'hw) \<times> file_s \<times> hook_call list) outcome" where
  "fb_close cfg vt lock_ret st filep =
     (let (fb, h) = st
      in if debug_assertions cfg \<and> f_priv filep = None then AssertFail
         else if lock_ret < 0 then Done (lock_ret, st, filep, [])
         else
           (let (ret, h', called) =
                  (if crefs fb = 1 then
                     (case vt_close vt of
                        None \<Rightarrow> (lock_ret, h, [])
                      | Some hook \<Rightarrow> (let (r, h') = hook h in (r, h', [HwClose])))
                   else (lock_ret, h, []))
            in if ret \<ge> 0 then
                 (if debug_assertions cfg \<and> \<not> 0 < sint (crefs fb) then AssertFail
                  else Done (ret, (fb\<lparr>crefs := crefs fb - 1\<rparr>, h'),
                         filep\<lparr>f_priv := None\<rparr>, called))
               else Done (ret, (fb, h'), filep, called)))"

subsection \<open>Read and write\<close>

text \<open>
  Beside the value returned and the file, \<open>fb_read\<close> and \<open>fb_write\<close> give the \<open>memcpy\<close>
  they perform on the frame memory: the offset from \<open>fbmem\<close> and the number of bytes.
  All of \<open>start\<close>, \<open>end\<close>, \<open>size\<close> and \<open>len\<close> are \<open>size_t\<close>, whose arithmetic wraps; the
  value returned is \<open>size\<close> read as an \<open>ssize_t\<close>.
\<close>

definition fb_read ::
  "config \<Rightarrow> 'hw fb_vtable_s \<Rightarrow> fb_chardev_s \<Rightarrow> file_s \<Rightarrow> size_t
     \<Rightarrow> (int \<times> file_s \<times> (nat \<times> nat) option) outcome" where
  "fb_read cfg vt fb filep len =
     (case f_priv filep of
        None \<Rightarrow> if debug_assertions cfg then AssertFail else Undefined
      | Some priv \<Rightarrow>
          bind_outcome (fb_get_panelinfo cfg vt fb (overlay priv)) (\<lambda>(ret, panelinfo).
            case panelinfo of
              None \<Rightarrow> Done (ret, filep, None)
            | Some pnl \<Rightarrow>
                (let start = f_pos filep
                 in if start \<ge> fblen pnl then Done (0, filep, None)
                    else
                      (let end0 = start + len;
                           end1 = (if end0 \<ge> fblen pnl then fblen pnl else end0);
                           size = end1 - start
                       in Done (sint size, filep\<lparr>f_pos := f_pos filep + size\<rparr>,
                                Some (unat start, unat size))))))"

definition fb_write ::
  "config \<Rightarrow> 'hw fb_vtable_s \<Rightarrow> fb_chardev_s \<Rightarrow> file_s \<Rightarrow> size_t
     \<Rightarrow> (int \<times> file_s \<times> (nat \<times> nat) option) outcome" where
  "fb_write cfg vt fb filep len =
     (case f_priv filep of
        None \<Rightarrow> if debug_assertions cfg then AssertFail else Undefined
      | Some priv \<Rightarrow>
          bind_outcome (fb_get_panelinfo cfg vt fb (overlay priv)) (\<lambda>(ret, panelinfo).
            case panelinfo of
              None \<Rightarrow> Done (ret, filep, None)
            | Some pnl \<Rightarrow>
                (let start = f_pos filep
                 in if start \<ge> fblen pnl then Done (- EFBIG, filep, None)
                    else
                      (let end0 = start + len;
                           end1 = (if end0 \<ge> fblen pnl then fblen pnl else end0);
                           size = end1 - start
                       in Done (sint size, filep\<lparr>f_pos := f_pos filep + size\<rparr>,
                                Some (unat start, unat size))))))"

subsection \<open>Poll\<close>



subsection \<open>The pan commands of ioctl\<close>

text \<open>
  Of \<open>fb_ioctl\<close> the two pan commands and the default branch are modelled. A pan command
  carries the structure its argument points to, once as the fields the driver reads and
  once as the bytes that \<open>memcpy\<close> copies into the local union; the rest of the union,
  which the driver does not initialise, is taken from \<open>junk\<close>. \<open>FBIOPAN_OVERLAY\<close> is
  compiled only with \<open>CONFIG_FB_OVERLAY\<close> and is an unknown command otherwise. The driver
  is reached through its device node, which exists once registration has bound
  \<open>vtable->priv\<close> to the device.
\<close>

datatype ioctl_req =
  FBIOPAN_OVERLAY fb_overlayinfo_s "byte list"
| FBIOPAN_DISPLAY fb_planeinfo_s "byte list"
| OTHER_IOCTL

definition ioctl_default ::
  "'hw fb_vtable_s \<Rightarrow> fb_chardev_s \<times> 'hw \<Rightarrow> (int \<times> (fb_chardev_s \<times> 'hw)) outcome" where
  "ioctl_default vt st =
     (case vt_ioctl vt of
        Some hook \<Rightarrow> (let (ret, h') = hook (snd st) in Done (ret, (fst st, h')))
      | None \<Rightarrow> Done (- ENOTTY, st))"

definition enqueue_result ::
  "fb_chardev_s \<Rightarrow> 'hw \<Rightarrow> (int \<times> fb_chardev_s option) outcome
     \<Rightarrow> (int \<times> (fb_chardev_s \<times> 'hw)) outcome" where
  "enqueue_result fb h r =
     bind_outcome r (\<lambda>(ret, priv).
       Done (ret, (case priv of None \<Rightarrow> fb | Some fb' \<Rightarrow> fb', h)))"

definition fb_ioctl ::
  "config \<Rightarrow> 'hw fb_vtable_s \<Rightarrow> ioctl_req \<Rightarrow> byte list \<Rightarrow> fb_chardev_s \<times> 'hw
     \<Rightarrow> (int \<times> (fb_chardev_s \<times> 'hw)) outcome" where
  "fb_ioctl cfg vt req junk st =
     (let (fb, h) = st
      in case req of
           FBIOPAN_OVERLAY oinfo img \<Rightarrow>
             if fb_overlay cfg then
               (let paninfo_u = img @ drop (length img) junk;
                    (h', oinfo') =
                      (case panoverlay vt of
                         None \<Rightarrow> (h, oinfo)
                       | Some hook \<Rightarrow> (let (r, h', oinfo') = hook oinfo h in (h', oinfo')))
                in enqueue_result fb h'
                     (fb_add_paninfo cfg (Some fb) paninfo_u (int (o_overlay oinfo'))))
             else ioctl_default vt st
         | FBIOPAN_DISPLAY pinfo img \<Rightarrow>
             (let paninfo_u = img @ drop (length img) junk;
                  h' = (case pandisplay vt of
                          None \<Rightarrow> h
                        | Some hook \<Rightarrow> (let (r, h') = hook pinfo h in h'))
              in enqueue_result fb h' (fb_add_paninfo cfg (Some fb) paninfo_u FB_NO_OVERLAY))
         | OTHER_IOCTL \<Rightarrow> ioctl_default vt st)"

subsection \<open>Sequences of open and close calls\<close>

text \<open>
  A call names the \<open>struct file\<close> it is made on and carries what the lock returns and, for
  open, whether the allocation succeeds. \<open>run\<close> makes the calls in order on the device,
  the hardware state and the files, and records for each call the counter before and
  after it, the value returned and the hooks invoked.
\<close>

datatype call = Open nat int bool | Close nat int

record step =
  st_call :: call
  st_before :: int
  st_after :: int
  st_ret :: int
  st_hooks :: "hook_call list"

type_synonym 'hw system = "(fb_chardev_s \<times> 'hw) \<times> (nat \<Rightarrow> file_s)"

fun do_call ::
  "config \<Rightarrow> 'hw fb_vtable_s \<Rightarrow> call \<Rightarrow> 'hw system \<Rightarrow> (step \<times> 'hw system) outcome" where
  "do_call cfg vt (Open f lock_ret alloc_ok) (st, files) =
     bind_outcome (fb_open cfg vt lock_ret alloc_ok st (files f)) (\<lambda>(ret, st', filep', called).
       Done (\<lparr>st_call = Open f lock_ret alloc_ok, st_before = sint (crefs (fst st)),
              st_after = sint (crefs (fst st')), st_ret = ret, st_hooks = called\<rparr>,
             (st', files(f := filep'))))"
| "do_call cfg vt (Close f lock_ret) (st, files) =
     bind_outcome (fb_close cfg vt lock_ret st (files f)) (\<lambda>(ret, st', filep', called).
       Done (\<lparr>st_call = Close f lock_ret, st_before = sint (crefs (fst st)),
              st_after = sint (crefs (fst st')), st_ret = ret, st_hooks = called\<rparr>,
             (st', files(f := filep'))))"

fun run ::
  "config \<Rightarrow> 'hw fb_vtable_s \<Rightarrow> call list \<Rightarrow> 'hw system
     \<Rightarrow> (step list \<times> 'hw system) outcome" where
  "run cfg vt [] s = Done ([], s)"
| "run cfg vt (c # cs) s =
     bind_outcome (do_call cfg vt c s) (\<lambda>(stp, s').
       bind_outcome (run cfg vt cs s') (\<lambda>(stps, s''). Done (stp # stps, s'')))"

text \<open>
  The file system opens a fresh \<open>struct file\<close> and closes only a file that is open; a
  sequence is \<open>disciplined\<close> when every call keeps to that and no open is made while the
  16-bit counter stands at its largest value.
\<close>

fun admissible :: "call \<Rightarrow> 'hw system \<Rightarrow> bool" where
  "admissible (Open f lock_ret alloc_ok) (st, files) =
     (f_priv (files f) = None \<and> sint (crefs (fst st)) < 32767)"
| "admissible (Close f lock_ret) (st, files) = (f_priv (files f) \<noteq> None)"

fun disciplined :: "config \<Rightarrow> 'hw fb_vtable_s \<Rightarrow> call list \<Rightarrow> 'hw system \<Rightarrow> bool" where
  "disciplined cfg vt [] s = True"
| "disciplined cfg vt (c # cs) s =
     (admissible c s \<and>
      (case do_call cfg vt c s of Done (stp, s') \<Rightarrow> disciplined cfg vt cs s' | _ \<Rightarrow> True))"

subsection \<open>A small device for concrete runs\<close>

text \<open>
  A configuration with records of four bytes and two waiters per surface, in a build
  without and with assertions; hardware with one plane and one overlay whose virtual
  height is twice the visible height, so that every surface reports two buffers; and the
  device that registration makes of them.
\<close>

definition example_cfg :: config where
  "example_cfg =
     \<lparr>debug_assertions = False, fb_overlay = True, npollwaiters = 2, paninfo_size = 4\<rparr>"

definition example_cfg_debug :: config where
  "example_cfg_debug = example_cfg\<lparr>debug_assertions := True\<rparr>"

definition example_hw :: "nat fb_vtable_s" where
  "example_hw =
     \<lparr>getvideoinfo = (0, \<lparr>yres = 480, nplanes = 1, noverlays = 1\<rparr>),
      getplaneinfo = (\<lambda>planeno display.
         (0, \<lparr>p_fbmem = 4096, p_fblen = 100, p_yres_virtual = 960, p_bpp = 8\<rparr>)),
      getoverlayinfo = Some (\<lambda>n.
         if n = 0 then (0, \<lparr>o_fbmem = 8192, o_fblen = 100, o_yres_virtual = 960,
                            o_yres = 480, o_bpp = 8, o_overlay = 0\<rparr>)
         else (- EINVAL, \<lparr>o_fbmem = 0, o_fblen = 0, o_yres_virtual = 0, o_yres = 0,
                           o_bpp = 0, o_overlay = 0\<rparr>)),
      vt_open = None, vt_close = None, pandisplay = None, panoverlay = None,
      vt_ioctl = None\<rparr>"

definition example_slot :: fb_paninfo_s where
  "example_slot = \<lparr>buf = \<lparr>cb_size = 8, cb_data = []\<rparr>, fds = [None, None]\<rparr>"

definition example_dev :: fb_chardev_s where
  "example_dev = \<lparr>plane = 0, vsyncoffset = 0, wdog = None, crefs = 0,
                   paninfo = [example_slot, example_slot]\<rparr>"

subsection \<open>Enqueueing several records\<close>

text \<open>
  \<open>fb_add_paninfos\<close> enqueues the given records one after the other on one surface and
  collects the values returned. \<open>fresh_slot\<close> is the slot that registration makes for a
  surface with the given panel info, the allocation of the ring buffer succeeding or not.
  \<open>holds cfg fb i n k\<close> says that slot \<open>i\<close> of the device has room for \<open>n\<close> records and
  holds \<open>k\<close> of them.
\<close>

fun fb_add_paninfos ::
  "config \<Rightarrow> fb_chardev_s option \<Rightarrow> byte list list \<Rightarrow> int
     \<Rightarrow> (int list \<times> fb_chardev_s option) outcome" where
  "fb_add_paninfos cfg priv [] ov = Done ([], priv)"
| "fb_add_paninfos cfg priv (r # rs) ov =
     bind_outcome (fb_add_paninfo cfg priv r ov) (\<lambda>(ret, priv').
       bind_outcome (fb_add_paninfos cfg priv' rs ov) (\<lambda>(rets, priv'').
         Done (ret # rets, priv'')))"


definition fresh_slot :: "config \<Rightarrow> bool \<Rightarrow> fb_panelinfo_s \<Rightarrow> fb_paninfo_s" where
  "fresh_slot cfg alloc_ok pnl =
     \<lparr>buf = snd (circbuf_init alloc_ok (unat (fbcount pnl) * paninfo_size cfg)),
      fds = replicate (npollwaiters cfg) None\<rparr>"


definition holds :: "config \<Rightarrow> fb_chardev_s \<Rightarrow> nat \<Rightarrow> nat \<Rightarrow> nat \<Rightarrow> bool" where
  "holds cfg fb i n k \<longleftrightarrow>
     i < paninfo_count fb \<and> cb_size (buf (paninfo fb ! i)) = n * paninfo_size cfg \<and>
     length (cb_data (buf (paninfo fb ! i))) = k * paninfo_size cfg"

definition example_queue :: "byte list \<Rightarrow> fb_chardev_s" where
  "example_queue q = set_buf example_dev 1 \<lparr>cb_size = 8, cb_data = q\<rparr>"

subsection \<open>Judging a sequence of open and close calls\<close>

text \<open>
  \<open>step_ok\<close> is what is to hold of every recorded call: the counter is not negative
  before or after the call; an open invokes the open hook exactly when it finds the
  counter at 0 (holding the lock, with its memory allocated and the hook present), and the
  counter goes up by one exactly when the open returns 0; a close invokes the close hook
  exactly when it finds the counter at 1, and the counter goes down by one exactly when
  the close returns a value that is not negative. \<open>opens n\<close> opens \<open>n\<close> different files.
  \<open>open_files\<close> are the files that have per-open-file state, and a system is
  \<open>consistent\<close> when the counter is their number.
\<close>

definition step_ok :: "'hw fb_vtable_s \<Rightarrow> step \<Rightarrow> bool" where
  "step_ok vt s \<longleftrightarrow>
     0 \<le> st_before s \<and> 0 \<le> st_after s \<and>
     (case st_call s of
        Open f lock_ret alloc_ok \<Rightarrow>
          st_hooks s = (if st_before s = 0 \<and> 0 \<le> lock_ret \<and> alloc_ok \<and> vt_open vt \<noteq> None
                        then [HwOpen] else []) \<and>
          st_after s = (if st_ret s = 0 then st_before s + 1 else st_before s)
      | Close f lock_ret \<Rightarrow>
          st_hooks s = (if st_before s = 1 \<and> 0 \<le> lock_ret \<and> vt_close vt \<noteq> None
                        then [HwClose] else []) \<and>
          st_after s = (if 0 \<le> st_ret s then st_before s - 1 else st_before s))"

primrec opens :: "nat \<Rightarrow> call list" where
  "opens 0 = []"
| "opens (Suc n) = Open n 0 True # opens n"

definition no_files :: "nat \<Rightarrow> file_s" where
  "no_files f = \<lparr>f_pos = 0, f_priv = None\<rparr>"

definition open_files :: "(nat \<Rightarrow> file_s) \<Rightarrow> nat set" where
  "open_files files = {f. f_priv (files f) \<noteq> None}"

definition consistent :: "'hw system \<Rightarrow> bool" where
  "consistent s \<longleftrightarrow>
     finite (open_files (snd s)) \<and>
     sint (crefs (fst (fst s))) = int (card (open_files (snd s)))"

definition example_hw_hooks :: "int \<Rightarrow> int \<Rightarrow> nat fb_vtable_s" where
  "example_hw_hooks ro rc =
     example_hw\<lparr>vt_open := Some (\<lambda>h. (ro, Suc h)), vt_close := Some (\<lambda>h. (rc, Suc h))\<rparr>"

definition example_file :: file_s where
  "example_file = \<lparr>f_pos = 0, f_priv = Some \<lparr>overlay = FB_NO_OVERLAY\<rparr>\<rparr>"

definition example_hw_pan :: "int \<Rightarrow> nat fb_vtable_s" where
  "example_hw_pan r =
     example_hw\<lparr>pandisplay := Some (\<lambda>pinfo h. (r, Suc h)),
                 panoverlay := Some (\<lambda>oinfo h. (r, Suc h, oinfo))\<rparr>"

definition example_pinfo :: fb_planeinfo_s where
  "example_pinfo = \<lparr>p_fbmem = 4096, p_fblen = 100, p_yres_virtual = 960, p_bpp = 8\<rparr>"

definition example_oinfo :: fb_overlayinfo_s where
  "example_oinfo = \<lparr>o_fbmem = 8192, o_fblen = 100, o_yres_virtual = 960, o_yres = 480,
                     o_bpp = 8, o_overlay = 0\<rparr>"



definition example_full_dev :: fb_chardev_s where
  "example_full_dev = set_buf example_dev 0 \<lparr>cb_size = 8, cb_data = [1, 2, 3, 4, 5, 6, 7, 8]\<rparr>"

definition example_vsync_dev :: fb_chardev_s where
  "example_vsync_dev =
     \<lparr>plane = 0, vsyncoffset = 5, wdog = None, crefs = 1,
      paninfo = [\<lparr>buf = \<lparr>cb_size = 8, cb_data = [1, 2, 3, 4]\<rparr>, fds = [Some 7, None]\<rparr>,
                 \<lparr>buf = \<lparr>cb_size = 8, cb_data = [5, 6, 7, 8]\<rparr>, fds = [Some 8, None]\<rparr>]\<rparr>"

definition example_sync_dev :: fb_chardev_s where
  "example_sync_dev = example_vsync_dev\<lparr>vsyncoffset := 0\<rparr>"

section \<open>Properties\<close>

subsection \<open>Auxiliary facts\<close>

lemma bind_outcome_Done_iff:
  "bind_outcome m f = Done y \<longleftrightarrow> (\<exists>x. m = Done x \<and> f x = Done y)"
  by (cases m) simp_all

lemma replicate_two: "replicate 2 x = [x, x]"
  by (simp add: numeral_2_eq_2)

lemma example_dev_registered:
  "fb_register_device example_cfg example_hw True True (\<lambda>i. True) 0 0 =
     Done (OK, Some example_dev)"
  by (simp add: fb_register_device_def example_cfg_def example_hw_def example_dev_def
      example_slot_def fb_get_panelinfo_def fb_get_planeinfo_def circbuf_init_def OK_def
      FB_NO_OVERLAY_def upt_rec replicate_two)

subsection \<open>Facts about registration\<close>

lemma fb_get_panelinfo_plane:
  "plane fb = plane fb' \<Longrightarrow> fb_get_panelinfo cfg vt fb ov = fb_get_panelinfo cfg vt fb' ov"
  by (simp add: fb_get_panelinfo_def fb_get_planeinfo_def)

lemma fb_get_panelinfo_Some:
  "fb_get_panelinfo cfg vt fb ov = Done (ret, Some pnl) \<Longrightarrow> ret = OK"
  by (auto simp: fb_get_panelinfo_def Let_def split: if_splits option.splits prod.splits)

lemma fb_get_panelinfo_None:
  "fb_get_panelinfo cfg vt fb ov = Done (ret, None) \<Longrightarrow> ret < 0"
  by (auto simp: fb_get_panelinfo_def fb_get_planeinfo_def Let_def split: if_splits option.splits prod.splits)

lemma fb_init_slots_ok:
  "fb_init_slots cfg vt alloc_buf fb js acc = Done (r, slots) \<Longrightarrow> 0 \<le> r \<Longrightarrow>
   length slots = length acc + length js \<and> take (length acc) slots = acc \<and>
   (\<forall>j < length js. \<exists>pnl. fb_get_panelinfo cfg vt fb (int (js ! j) - 1) = Done (OK, Some pnl) \<and>
       slots ! (length acc + j) = fresh_slot cfg (alloc_buf (js ! j)) pnl)"
proof (induction js arbitrary: acc)
  case Nil
  then show ?case by simp
next
  case (Cons i js)
  from Cons.prems obtain ret pnl where
    g: "fb_get_panelinfo cfg vt fb (int i - 1) = Done (ret, Some pnl)" and
    rest: "fb_init_slots cfg vt alloc_buf fb js (acc @ [fresh_slot cfg (alloc_buf i) pnl]) =
             Done (r, slots)"
  proof (cases "fb_get_panelinfo cfg vt fb (int i - 1)")
    case (Done x)
    obtain ret po where x: "x = (ret, po)" by (cases x)
    show ?thesis
    proof (cases po)
      case None
      with Done x have "ret < 0" by (auto dest: fb_get_panelinfo_None)
      with None Done x Cons.prems show ?thesis by simp
    next
      case (Some pnl)
      with Done x Cons.prems(1) that show ?thesis
        by (simp add: circbuf_init_def fresh_slot_def split: if_splits)
    qed
  next
    case AssertFail
    with Cons.prems(1) show ?thesis by simp
  next
    case Undefined
    with Cons.prems(1) show ?thesis by simp
  qed
  from g have ret: "ret = OK" by (rule fb_get_panelinfo_Some)
  from Cons.IH [OF rest Cons.prems(2)] have
    len: "length slots = length acc + 1 + length js" and
    tk: "take (length acc + 1) slots = acc @ [fresh_slot cfg (alloc_buf i) pnl]" and
    nth: "\<forall>j<length js. \<exists>pnl'. fb_get_panelinfo cfg vt fb (int (js ! j) - 1) = Done (OK, Some pnl') \<and>
            slots ! (length acc + 1 + j) = fresh_slot cfg (alloc_buf (js ! j)) pnl'"
    by simp_all
  from tk have tk': "take (length acc) slots = acc"
    by (metis append_eq_conv_conj length_append_singleton take_Suc_conv_app_nth take_all_iff
        Suc_eq_plus1 butlast_snoc butlast_take diff_add_inverse2 le_add1 len trans_le_add1)
  from tk len have here: "slots ! length acc = fresh_slot cfg (alloc_buf i) pnl"
    by (metis Suc_eq_plus1 less_add_one nth_append_length nth_take)
  show ?case
  proof (intro conjI allI impI)
    show "length slots = length acc + length (i # js)" using len by simp
    show "take (length acc) slots = acc" by (rule tk')
  next
    fix j assume j: "j < length (i # js)"
    show "\<exists>pnl. fb_get_panelinfo cfg vt fb (int ((i # js) ! j) - 1) = Done (OK, Some pnl) \<and>
            slots ! (length acc + j) = fresh_slot cfg (alloc_buf ((i # js) ! j)) pnl"
    proof (cases j)
      case 0
      with g ret here show ?thesis by auto
    next
      case (Suc k)
      with j nth show ?thesis by auto
    qed
  qed
qed

lemma fb_register_device_slots:
  assumes reg: "fb_register_device cfg vt alloc_fb alloc_paninfo alloc_buf register_ret pl =
                  Done (ret, Some fb)"
    and i: "i < paninfo_count fb"
  shows "\<exists>pnl. fb_get_panelinfo cfg vt fb (int i - 1) = Done (OK, Some pnl) \<and>
           paninfo fb ! i = fresh_slot cfg (alloc_buf i) pnl"
proof -
  define fb0 where "fb0 = \<lparr>plane = of_int pl, vsyncoffset = 0, wdog = None, crefs = 0,
                   paninfo = []\<rparr>"
  define n where "n = (if fb_overlay cfg then noverlays (snd (getvideoinfo vt)) else 0) + 1"
  from reg obtain r slots where
    init: "fb_init_slots cfg vt alloc_buf fb0 [0 ..< n] [] = Done (r, slots)" and r: "0 \<le> r" and
    fb: "fb = fb0\<lparr>paninfo := slots\<rparr>"
    by (auto simp: fb_register_device_def Let_def bind_outcome_Done_iff fb0_def n_def
        split: if_splits prod.splits)
  from fb_init_slots_ok [OF init r] have
    len: "length slots = n" and
    nth: "\<forall>j<n. \<exists>pnl. fb_get_panelinfo cfg vt fb0 (int ([0 ..< n] ! j) - 1) = Done (OK, Some pnl) \<and>
            slots ! j = fresh_slot cfg (alloc_buf ([0 ..< n] ! j)) pnl"
    by simp_all
  from i fb len have "i < n" by (simp add: paninfo_count_def)
  with nth obtain pnl where
    "fb_get_panelinfo cfg vt fb0 (int i - 1) = Done (OK, Some pnl)"
    "slots ! i = fresh_slot cfg (alloc_buf i) pnl"
    by auto
  moreover have "fb_get_panelinfo cfg vt fb (int i - 1) = fb_get_panelinfo cfg vt fb0 (int i - 1)"
    by (rule fb_get_panelinfo_plane) (simp add: fb)
  moreover have "paninfo fb ! i = slots ! i" by (simp add: fb)
  ultimately show ?thesis by simp
qed

lemma example_panelinfo:
  "fb_get_panelinfo example_cfg example_hw example_dev 0 =
     Done (OK, Some \<lparr>fbmem = 8192, fblen = 100, fbcount = 2, bpp = 8\<rparr>)"
  by (simp add: fb_get_panelinfo_def example_cfg_def example_hw_def FB_NO_OVERLAY_def)

lemma example_primary_panelinfo:
  "fb_get_panelinfo example_cfg example_hw example_dev FB_NO_OVERLAY =
     Done (OK, Some \<lparr>fbmem = 4096, fblen = 100, fbcount = 2, bpp = 8\<rparr>)"
  by (simp add: fb_get_panelinfo_def fb_get_planeinfo_def example_cfg_def example_hw_def
      example_dev_def FB_NO_OVERLAY_def OK_def)

text \<open>
  When the ring buffer of a slot cannot be allocated, a build without assertions still
  registers the device, with a queue of capacity 0 in that slot; a build with assertions
  stops on the assertion that follows \<open>circbuf_init\<close>.
\<close>

lemma fb_register_device_failed_buffer:
  "fb_register_device example_cfg example_hw True True (\<lambda>i. i \<noteq> 1) 0 0 =
     Done (OK, Some (set_buf example_dev 1 \<lparr>cb_size = 0, cb_data = []\<rparr>)) \<and>
   fb_register_device example_cfg_debug example_hw True True (\<lambda>i. i \<noteq> 1) 0 0 = AssertFail"
  by (simp add: fb_register_device_def example_cfg_debug_def example_cfg_def example_hw_def
      example_dev_def example_slot_def fb_get_panelinfo_def fb_get_planeinfo_def
      circbuf_init_def set_buf_def OK_def ENOMEM_def FB_NO_OVERLAY_def upt_rec replicate_two)

subsection \<open>Facts about the queue functions\<close>

lemma set_buf_nth [simp]:
  "i < paninfo_count fb \<Longrightarrow> buf (paninfo (set_buf fb i b) ! i) = b"
  by (simp add: set_buf_def paninfo_count_def)

lemma set_buf_count [simp]: "paninfo_count (set_buf fb i b) = paninfo_count fb"
  by (simp add: set_buf_def paninfo_count_def)

lemma set_buf_same [simp]:
  "i < paninfo_count fb \<Longrightarrow> set_buf fb i (buf (paninfo fb ! i)) = fb"
  by (simp add: set_buf_def paninfo_count_def)

lemma set_buf_fds [simp]: "fds (paninfo (set_buf fb i b) ! j) = fds (paninfo fb ! j)"
  by (cases "i < length (paninfo fb)")
    (simp_all add: set_buf_def nth_list_update list_update_beyond not_less)

lemma set_buf_vsyncoffset [simp]: "vsyncoffset (set_buf fb i b) = vsyncoffset fb"
  by (simp add: set_buf_def)

lemma set_buf_wdog [simp]: "wdog (set_buf fb i b) = wdog fb"
  by (simp add: set_buf_def)

lemma fb_get_panbuf_slot:
  "i < paninfo_count fb \<Longrightarrow> fb_get_panbuf cfg fb (int i - 1) = Done (Some i)"
  by (simp add: fb_get_panbuf_def)

lemma fb_add_paninfo_room:
  assumes h: "holds cfg fb i n k" and k: "k < n" and r: "length r = paninfo_size cfg"
    and P: "0 < paninfo_size cfg"
  shows "\<exists>fb'. fb_add_paninfo cfg (Some fb) r (int i - 1) = Done (OK, Some fb') \<and>
           holds cfg fb' i n (Suc k) \<and>
           cb_data (buf (paninfo fb' ! i)) = cb_data (buf (paninfo fb ! i)) @ r"
proof -
  let ?P = "paninfo_size cfg"
  let ?b = "buf (paninfo fb ! i)"
  from h have i: "i < paninfo_count fb" and sz: "cb_size ?b = n * ?P"
    and len: "length (cb_data ?b) = k * ?P"
    by (simp_all add: holds_def)
  from k have "Suc k * ?P \<le> n * ?P" by (intro mult_le_mono1) simp
  then have space: "?P \<le> circbuf_space ?b"
    by (simp add: circbuf_space_def circbuf_used_def sz len)
  then have w: "circbuf_write ?b r ?P = (?b\<lparr>cb_data := cb_data ?b @ r\<rparr>, int ?P)"
    by (simp add: circbuf_write_def Let_def min_absorb1 r)
  show ?thesis
    using i P by (simp add: fb_add_paninfo_def fb_get_panbuf_slot w holds_def sz len r OK_def)
qed

lemma fb_add_paninfo_full:
  assumes h: "holds cfg fb i n n"
  shows "fb_add_paninfo cfg (Some fb) r (int i - 1) =
           (if debug_assertions cfg \<and> 0 < paninfo_size cfg then AssertFail
            else Done (- ENOSPC, Some fb))"
proof -
  let ?P = "paninfo_size cfg"
  let ?b = "buf (paninfo fb ! i)"
  from h have i: "i < paninfo_count fb" and "circbuf_space ?b = 0"
    by (simp_all add: holds_def circbuf_space_def circbuf_used_def)
  then have w: "circbuf_write ?b r ?P = (?b, 0)"
    by (simp add: circbuf_write_def Let_def)
  show ?thesis
    using i by (auto simp: fb_add_paninfo_def fb_get_panbuf_slot w)
qed

lemma fb_paninfo_count_holds:
  "holds cfg fb i n k \<Longrightarrow> 0 < paninfo_size cfg \<Longrightarrow>
   fb_paninfo_count cfg (Some fb) (int i - 1) = Done (int k)"
  by (simp add: fb_paninfo_count_def holds_def fb_get_panbuf_slot circbuf_used_def)

lemma fb_add_paninfos_room:
  assumes "holds cfg fb i n k" and "k + length rs \<le> n"
    and "list_all (\<lambda>r. length r = paninfo_size cfg) rs" and "0 < paninfo_size cfg"
  shows "\<exists>fb'. fb_add_paninfos cfg (Some fb) rs (int i - 1) =
                  Done (replicate (length rs) OK, Some fb') \<and>
           holds cfg fb' i n (k + length rs)"
  using assms
proof (induction rs arbitrary: fb k)
  case Nil
  then show ?case by simp
next
  case (Cons r rs)
  from Cons.prems have k: "k < n" and r: "length r = paninfo_size cfg" by simp_all
  from fb_add_paninfo_room [OF Cons.prems(1) k r Cons.prems(4)] obtain fb1 where
    a: "fb_add_paninfo cfg (Some fb) r (int i - 1) = Done (OK, Some fb1)" and
    h1: "holds cfg fb1 i n (Suc k)"
    by blast
  from Cons.prems have "Suc k + length rs \<le> n"
    "list_all (\<lambda>r. length r = paninfo_size cfg) rs" by simp_all
  from Cons.IH [OF h1 this Cons.prems(4)] obtain fb' where
    "fb_add_paninfos cfg (Some fb1) rs (int i - 1) = Done (replicate (length rs) OK, Some fb')"
    "holds cfg fb' i n (Suc k + length rs)"
    by blast
  with a show ?case by simp
qed

lemma example_dev_holds: "holds example_cfg example_dev 1 2 0"
  by (simp add: holds_def paninfo_count_def example_dev_def example_slot_def example_cfg_def)

lemma set_notify_loop:
  "set (notify_loop w) = (\<lambda>x. (x, POLLOUT)) ` {x. Some x \<in> set w}"
  by (induction w) (auto split: option.splits)

lemma length_notify_loop: "length (notify_loop w) \<le> length w"
  by (induction w) (auto split: option.splits)

lemma fb_do_pollnotify_all:
  "length (fds p) = npollwaiters cfg \<Longrightarrow> fb_do_pollnotify cfg p = notify_loop (fds p)"
  by (simp add: fb_do_pollnotify_def)

lemma fb_pollnotify_Done:
  "i < paninfo_count fb \<Longrightarrow>
   \<exists>fb' sigs. fb_pollnotify cfg (Some fb) (int i - 1) = Done (Some fb', sigs) \<and>
     paninfo fb' = paninfo fb \<and>
     (if vsyncoffset fb > 0 then sigs = [] \<and> fb' = fb\<lparr>wdog := Some (vsyncoffset fb, i)\<rparr>
      else fb' = fb \<and> sigs = fb_do_pollnotify cfg (paninfo fb ! i))"
  by (cases "vsyncoffset fb > 0") (simp_all add: fb_pollnotify_def wd_start_def)

lemma holds_paninfo_eq:
  "paninfo fb' = paninfo fb \<Longrightarrow> holds cfg fb' i n k = holds cfg fb i n k"
  by (simp add: holds_def paninfo_count_def)

lemma fb_peek_paninfo_some:
  assumes h: "holds cfg fb i n (Suc k)" and P: "0 < paninfo_size cfg"
    and d: "length d = paninfo_size cfg"
  shows "fb_peek_paninfo cfg (Some fb) d (int i - 1) =
           Done (OK, take (paninfo_size cfg) (cb_data (buf (paninfo fb ! i))))"
proof -
  let ?P = "paninfo_size cfg"
  let ?b = "buf (paninfo fb ! i)"
  from h have i: "i < paninfo_count fb" and len: "length (cb_data ?b) = Suc k * ?P"
    by (simp_all add: holds_def)
  then have p: "circbuf_peek ?b d ?P = (take ?P (cb_data ?b), int ?P)"
    by (simp add: circbuf_peek_def circbuf_used_def Let_def d)
  show ?thesis
    using i P by (simp add: fb_peek_paninfo_def fb_get_panbuf_slot p OK_def)
qed

lemma fb_peek_paninfo_empty:
  assumes h: "holds cfg fb i n 0"
  shows "fb_peek_paninfo cfg (Some fb) d (int i - 1) = Done (- ENOSPC, d)"
proof -
  let ?b = "buf (paninfo fb ! i)"
  from h have i: "i < paninfo_count fb" and len: "cb_data ?b = []"
    by (simp_all add: holds_def)
  then have p: "circbuf_peek ?b d (paninfo_size cfg) = (d, 0)"
    by (simp add: circbuf_peek_def circbuf_used_def Let_def)
  show ?thesis
    using i by (simp add: fb_peek_paninfo_def fb_get_panbuf_slot p)
qed

lemma circbuf_skip_record:
  "length (cb_data b) = Suc k * P \<Longrightarrow>
   circbuf_skip b P = (b\<lparr>cb_data := drop P (cb_data b)\<rparr>, int P)"
  by (simp add: circbuf_skip_def circbuf_used_def Let_def)

lemma holds_set_buf_skip:
  "holds cfg fb i n (Suc k) \<Longrightarrow>
   holds cfg (set_buf fb i (buf (paninfo fb ! i)\<lparr>cb_data := drop (paninfo_size cfg) (cb_data (buf (paninfo fb ! i)))\<rparr>)) i n k"
  by (simp add: holds_def)

lemma fb_remove_paninfo_unfold:
  assumes i: "i < paninfo_count fb" and P: "0 < paninfo_size cfg"
    and sk: "circbuf_skip (buf (paninfo fb ! i)) (paninfo_size cfg) = (b', int (paninfo_size cfg))"
    and n: "fb_pollnotify cfg (Some (set_buf fb i b')) (int i - 1) = Done (Some fb', sigs)"
  shows "fb_remove_paninfo cfg (Some fb) (int i - 1) = Done (OK, Some fb', sigs)"
  using i P by (simp add: fb_remove_paninfo_def fb_get_panbuf_slot sk n OK_def)

lemma fb_remove_paninfo_some:
  assumes h: "holds cfg fb i n (Suc k)" and P: "0 < paninfo_size cfg"
  shows "\<exists>fb' sigs. fb_remove_paninfo cfg (Some fb) (int i - 1) = Done (OK, Some fb', sigs) \<and>
           holds cfg fb' i n k \<and>
           cb_data (buf (paninfo fb' ! i)) = drop (paninfo_size cfg) (cb_data (buf (paninfo fb ! i)))"
proof -
  define b' where "b' = buf (paninfo fb ! i)
                     \<lparr>cb_data := drop (paninfo_size cfg) (cb_data (buf (paninfo fb ! i)))\<rparr>"
  define fb1 where "fb1 = set_buf fb i b'"
  from h have i: "i < paninfo_count fb"
    and len: "length (cb_data (buf (paninfo fb ! i))) = Suc k * paninfo_size cfg"
    by (simp_all add: holds_def)
  from len have sk: "circbuf_skip (buf (paninfo fb ! i)) (paninfo_size cfg) =
                       (b', int (paninfo_size cfg))"
    unfolding b'_def by (rule circbuf_skip_record)
  from h have h1: "holds cfg fb1 i n k"
    unfolding fb1_def b'_def by (rule holds_set_buf_skip)
  from i have i1: "i < paninfo_count fb1" by (simp add: fb1_def)
  from fb_pollnotify_Done [OF i1, of cfg] obtain fb' sigs where
    n: "fb_pollnotify cfg (Some fb1) (int i - 1) = Done (Some fb', sigs)" and
    eq: "paninfo fb' = paninfo fb1"
    by blast
  from h1 have h': "holds cfg fb' i n k" by (simp only: holds_paninfo_eq [OF eq])
  from i have "buf (paninfo fb1 ! i) = b'" by (simp add: fb1_def)
  with eq have q: "cb_data (buf (paninfo fb' ! i)) =
                     drop (paninfo_size cfg) (cb_data (buf (paninfo fb ! i)))"
    by (simp add: b'_def)
  from n have "fb_remove_paninfo cfg (Some fb) (int i - 1) = Done (OK, Some fb', sigs)"
    unfolding fb1_def by (rule fb_remove_paninfo_unfold [OF i P sk])
  with h' q show ?thesis by blast
qed

lemma fb_remove_paninfo_empty:
  assumes h: "holds cfg fb i n 0" and P: "0 < paninfo_size cfg"
  shows "fb_remove_paninfo cfg (Some fb) (int i - 1) = Done (- ENOSPC, Some fb, [])"
proof -
  let ?b = "buf (paninfo fb ! i)"
  from h have i: "i < paninfo_count fb" and len: "cb_data ?b = []"
    by (simp_all add: holds_def)
  then have p: "circbuf_skip ?b (paninfo_size cfg) = (?b, 0)"
    by (simp add: circbuf_skip_def circbuf_used_def Let_def)
  show ?thesis
    using i P by (simp add: fb_remove_paninfo_def fb_get_panbuf_slot p)
qed

subsection \<open>C1: capacity of the pan-info queue\<close>

text \<open>
  C1. Register the example device, whose surfaces report two buffers, in a build with
  assertions, and pan the display three times. The first two \<open>FBIOPAN_DISPLAY\<close> calls
  enqueue their records and return \<open>OK\<close>. The third finds the queue full: the ring buffer
  writes nothing, and the call does not return \<open>-ENOSPC\<close> but stops on the assertion
  \<open>ret == sizeof(union fb_paninfo_u)\<close> of \<open>fb_add_paninfo\<close>, although the line after the
  assertion handles \<open>ret <= 0\<close>. The same call in a build without assertions returns
  \<open>-ENOSPC\<close> and leaves the queue as it was.
\<close>

theorem fb_add_paninfo_full_asserts:
  "fb_register_device example_cfg_debug example_hw True True (\<lambda>i. True) 0 0 =
     Done (OK, Some example_dev) \<and>
   fb_ioctl example_cfg_debug example_hw (FBIOPAN_DISPLAY example_pinfo [1, 2, 3, 4]) []
       (example_dev, 0) =
     Done (OK, (set_buf example_dev 0 \<lparr>cb_size = 8, cb_data = [1, 2, 3, 4]\<rparr>, 0)) \<and>
   fb_ioctl example_cfg_debug example_hw (FBIOPAN_DISPLAY example_pinfo [5, 6, 7, 8]) []
       (set_buf example_dev 0 \<lparr>cb_size = 8, cb_data = [1, 2, 3, 4]\<rparr>, 0) =
     Done (OK, (example_full_dev, 0)) \<and>
   fb_ioctl example_cfg_debug example_hw (FBIOPAN_DISPLAY example_pinfo [9, 9, 9, 9]) []
       (example_full_dev, 0) = AssertFail \<and>
   fb_add_paninfo example_cfg_debug (Some example_full_dev) [9, 9, 9, 9] FB_NO_OVERLAY =
     AssertFail \<and>
   fb_ioctl example_cfg example_hw (FBIOPAN_DISPLAY example_pinfo [9, 9, 9, 9]) []
       (example_full_dev, 0) = Done (- ENOSPC, (example_full_dev, 0))"
proof -
  have reg: "fb_register_device example_cfg_debug example_hw True True (\<lambda>i. True) 0 0 =
               Done (OK, Some example_dev)"
    by (simp add: fb_register_device_def example_cfg_debug_def example_cfg_def example_hw_def
        example_dev_def example_slot_def fb_get_panelinfo_def fb_get_planeinfo_def
        circbuf_init_def OK_def FB_NO_OVERLAY_def upt_rec replicate_two)
  have pan: "fb_ioctl example_cfg_debug example_hw (FBIOPAN_DISPLAY example_pinfo [1, 2, 3, 4]) []
       (example_dev, 0) =
     Done (OK, (set_buf example_dev 0 \<lparr>cb_size = 8, cb_data = [1, 2, 3, 4]\<rparr>, 0))"
    "fb_ioctl example_cfg_debug example_hw (FBIOPAN_DISPLAY example_pinfo [5, 6, 7, 8]) []
       (set_buf example_dev 0 \<lparr>cb_size = 8, cb_data = [1, 2, 3, 4]\<rparr>, 0) =
     Done (OK, (example_full_dev, 0))"
    by (simp_all add: fb_ioctl_def enqueue_result_def fb_add_paninfo_def fb_get_panbuf_def
        paninfo_count_def example_full_dev_def example_dev_def example_slot_def example_hw_def
        example_cfg_debug_def example_cfg_def circbuf_write_def circbuf_space_def
        circbuf_used_def set_buf_def OK_def FB_NO_OVERLAY_def)
  have full: "fb_ioctl example_cfg_debug example_hw (FBIOPAN_DISPLAY example_pinfo [9, 9, 9, 9]) []
       (example_full_dev, 0) = AssertFail"
    "fb_add_paninfo example_cfg_debug (Some example_full_dev) [9, 9, 9, 9] FB_NO_OVERLAY =
       AssertFail"
    "fb_ioctl example_cfg example_hw (FBIOPAN_DISPLAY example_pinfo [9, 9, 9, 9]) []
       (example_full_dev, 0) = Done (- ENOSPC, (example_full_dev, 0))"
    by (simp_all add: fb_ioctl_def enqueue_result_def fb_add_paninfo_def fb_get_panbuf_def
        paninfo_count_def example_full_dev_def example_dev_def example_slot_def example_hw_def
        example_cfg_debug_def example_cfg_def circbuf_write_def circbuf_space_def
        circbuf_used_def set_buf_def OK_def FB_NO_OVERLAY_def)
  from reg pan full show ?thesis by (simp only: simp_thms)
qed

text \<open>
  X3. After a successful registration every pan-info slot whose ring buffer could be
  allocated has an empty ring buffer whose capacity is the buffer count that
  \<open>fb_get_panelinfo\<close> reports for the slot's surface times the size of a record.
  Enqueueing up to that many records succeeds each time, and \<open>fb_paninfo_count\<close> then
  returns the number enqueued. One more enqueue on the full queue returns \<open>-ENOSPC\<close> in
  a build without assertions; with them it does not return.
\<close>

theorem fb_queue_capacity:
  assumes reg: "fb_register_device cfg vt alloc_fb alloc_paninfo alloc_buf register_ret pl =
                  Done (ret, Some fb)"
    and i: "i < paninfo_count fb"
    and ok: "alloc_buf i"
    and P: "0 < paninfo_size cfg"
    and rs: "list_all (\<lambda>r. length r = paninfo_size cfg) rs"
  shows "\<exists>pnl. fb_get_panelinfo cfg vt fb (int i - 1) = Done (OK, Some pnl) \<and>
           cb_size (buf (paninfo fb ! i)) = unat (fbcount pnl) * paninfo_size cfg \<and>
           cb_data (buf (paninfo fb ! i)) = [] \<and>
           (length rs \<le> unat (fbcount pnl) \<longrightarrow>
              (\<exists>fb'. fb_add_paninfos cfg (Some fb) rs (int i - 1) =
                        Done (replicate (length rs) OK, Some fb') \<and>
                     fb_paninfo_count cfg (Some fb') (int i - 1) = Done (int (length rs)) \<and>
                     (length rs = unat (fbcount pnl) \<longrightarrow>
                        fb_add_paninfo cfg (Some fb') r (int i - 1) =
                          (if debug_assertions cfg then AssertFail
                           else Done (- ENOSPC, Some fb')))))"
proof -
  from fb_register_device_slots [OF reg i] ok obtain pnl where
    g: "fb_get_panelinfo cfg vt fb (int i - 1) = Done (OK, Some pnl)" and
    slot: "paninfo fb ! i = fresh_slot cfg True pnl"
    by auto
  let ?n = "unat (fbcount pnl)"
  from slot i have h0: "holds cfg fb i ?n 0"
    by (simp add: holds_def fresh_slot_def circbuf_init_def)
  have enq: "\<exists>fb'. fb_add_paninfos cfg (Some fb) rs (int i - 1) =
                        Done (replicate (length rs) OK, Some fb') \<and>
                     fb_paninfo_count cfg (Some fb') (int i - 1) = Done (int (length rs)) \<and>
                     (length rs = ?n \<longrightarrow>
                        fb_add_paninfo cfg (Some fb') r (int i - 1) =
                          (if debug_assertions cfg then AssertFail
                           else Done (- ENOSPC, Some fb')))"
    if le: "length rs \<le> ?n"
  proof -
    from fb_add_paninfos_room [OF h0 _ rs P] le obtain fb' where
      a: "fb_add_paninfos cfg (Some fb) rs (int i - 1) = Done (replicate (length rs) OK, Some fb')"
      and h: "holds cfg fb' i ?n (length rs)"
      by auto
    from h P have c: "fb_paninfo_count cfg (Some fb') (int i - 1) = Done (int (length rs))"
      by (rule fb_paninfo_count_holds)
    have f: "fb_add_paninfo cfg (Some fb') r (int i - 1) =
               (if debug_assertions cfg then AssertFail else Done (- ENOSPC, Some fb'))"
      if "length rs = ?n"
      using fb_add_paninfo_full [of cfg fb' i ?n r] h that P by simp
    from a c f show ?thesis by blast
  qed
  from g slot enq show ?thesis
    by (intro exI [of _ pnl]) (simp add: fresh_slot_def circbuf_init_def)
qed

theorem fb_queue_capacity_witness:
  "cb_size (buf (paninfo example_dev ! 1)) = 2 * paninfo_size example_cfg \<and>
   (\<exists>fb'. fb_add_paninfos example_cfg (Some example_dev) [[1, 2, 3, 4], [5, 6, 7, 8]] 0 =
             Done ([OK, OK], Some fb') \<and>
          fb_paninfo_count example_cfg (Some fb') 0 = Done 2 \<and>
          fb_add_paninfo example_cfg (Some fb') [9, 9, 9, 9] 0 = Done (- ENOSPC, Some fb'))"
proof -
  have i: "1 < paninfo_count example_dev"
    by (simp add: paninfo_count_def example_dev_def)
  have P: "0 < paninfo_size example_cfg"
    by (simp add: example_cfg_def)
  have rs: "list_all (\<lambda>r. length r = paninfo_size example_cfg) [[1, 2, 3, 4], [5, 6, 7, 8 :: byte]]"
    by (simp add: example_cfg_def)
  from fb_queue_capacity [OF example_dev_registered i TrueI P rs, of "[9, 9, 9, 9]"]
  obtain pnl where
    g: "fb_get_panelinfo example_cfg example_hw example_dev (int 1 - 1) = Done (OK, Some pnl)"
    and sz: "cb_size (buf (paninfo example_dev ! 1)) = unat (fbcount pnl) * paninfo_size example_cfg"
    and enq: "length [[1, 2, 3, 4], [5, 6, 7, 8 :: byte]] \<le> unat (fbcount pnl) \<longrightarrow>
       (\<exists>fb'. fb_add_paninfos example_cfg (Some example_dev) [[1, 2, 3, 4], [5, 6, 7, 8]] (int 1 - 1) =
                 Done (replicate (length [[1, 2, 3, 4], [5, 6, 7, 8 :: byte]]) OK, Some fb') \<and>
              fb_paninfo_count example_cfg (Some fb') (int 1 - 1) =
                 Done (int (length [[1, 2, 3, 4], [5, 6, 7, 8 :: byte]])) \<and>
              (length [[1, 2, 3, 4], [5, 6, 7, 8 :: byte]] = unat (fbcount pnl) \<longrightarrow>
                 fb_add_paninfo example_cfg (Some fb') [9, 9, 9, 9] (int 1 - 1) =
                   (if debug_assertions example_cfg then AssertFail
                    else Done (- ENOSPC, Some fb'))))"
    by blast
  from g have n: "unat (fbcount pnl) = 2"
    by (auto simp: example_panelinfo)
  have d: "\<not> debug_assertions example_cfg"
    by (simp add: example_cfg_def)
  from enq n d sz show ?thesis
    by (simp add: replicate_two)
qed

subsection \<open>C2: enqueue, peek and dequeue\<close>

text \<open>
  C2, as the code has it. On a surface whose queue holds whole records and has room for one
  more, enqueueing a record \<open>r\<close> succeeds. A peek then returns the oldest pending record,
  which is \<open>r\<close> itself when the queue was empty before and the record at the front of the
  queue otherwise; peek does not change the device. A dequeue then returns \<open>OK\<close> and no
  record (\<open>fb_remove_paninfo\<close> returns a status only) and removes the oldest record, one
  payload unit, which leaves the queue empty when it was empty before. Peek and dequeue on
  an empty queue return \<open>-ENOSPC\<close>.
\<close>

theorem fb_queue_round_trip:
  assumes h: "holds cfg fb i n k" and k: "k < n" and P: "0 < paninfo_size cfg"
    and r: "length r = paninfo_size cfg" and d: "length d = paninfo_size cfg"
  shows "\<exists>fb'. fb_add_paninfo cfg (Some fb) r (int i - 1) = Done (OK, Some fb') \<and>
           fb_peek_paninfo cfg (Some fb') d (int i - 1) =
             Done (OK, take (paninfo_size cfg) (cb_data (buf (paninfo fb ! i)) @ r)) \<and>
           (\<exists>fb'' sigs. fb_remove_paninfo cfg (Some fb') (int i - 1) = Done (OK, Some fb'', sigs) \<and>
              cb_data (buf (paninfo fb'' ! i)) =
                drop (paninfo_size cfg) (cb_data (buf (paninfo fb ! i)) @ r) \<and>
              circbuf_used (buf (paninfo fb'' ! i)) + paninfo_size cfg =
                circbuf_used (buf (paninfo fb' ! i))) \<and>
           (if k = 0
            then take (paninfo_size cfg) (cb_data (buf (paninfo fb ! i)) @ r) = r \<and>
                 drop (paninfo_size cfg) (cb_data (buf (paninfo fb ! i)) @ r) = [] \<and>
                 fb_peek_paninfo cfg (Some fb) d (int i - 1) = Done (- ENOSPC, d) \<and>
                 fb_remove_paninfo cfg (Some fb) (int i - 1) = Done (- ENOSPC, Some fb, [])
            else take (paninfo_size cfg) (cb_data (buf (paninfo fb ! i)) @ r) =
                   take (paninfo_size cfg) (cb_data (buf (paninfo fb ! i))))"
proof -
  let ?P = "paninfo_size cfg"
  let ?q = "cb_data (buf (paninfo fb ! i))"
  from fb_add_paninfo_room [OF h k r P] obtain fb' where
    a: "fb_add_paninfo cfg (Some fb) r (int i - 1) = Done (OK, Some fb')" and
    h': "holds cfg fb' i n (Suc k)" and
    q': "cb_data (buf (paninfo fb' ! i)) = ?q @ r"
    by blast
  from fb_peek_paninfo_some [OF h' P d] q' have
    p: "fb_peek_paninfo cfg (Some fb') d (int i - 1) = Done (OK, take ?P (?q @ r))"
    by simp
  from fb_remove_paninfo_some [OF h' P] q' obtain fb'' sigs where
    rm: "fb_remove_paninfo cfg (Some fb') (int i - 1) = Done (OK, Some fb'', sigs)" and
    h'': "holds cfg fb'' i n k" and
    q'': "cb_data (buf (paninfo fb'' ! i)) = drop ?P (?q @ r)"
    by auto
  from h' h'' have used: "circbuf_used (buf (paninfo fb'' ! i)) + ?P =
                circbuf_used (buf (paninfo fb' ! i))"
    by (simp add: holds_def circbuf_used_def)
  from h have len: "length ?q = k * ?P" by (simp add: holds_def)
  have last: "if k = 0
            then take ?P (?q @ r) = r \<and> drop ?P (?q @ r) = [] \<and>
                 fb_peek_paninfo cfg (Some fb) d (int i - 1) = Done (- ENOSPC, d) \<and>
                 fb_remove_paninfo cfg (Some fb) (int i - 1) = Done (- ENOSPC, Some fb, [])
            else take ?P (?q @ r) = take ?P ?q"
  proof (cases "k = 0")
    case True
    with h have h0: "holds cfg fb i n 0" by simp
    from True len have "?q = []" by simp
    with True r P fb_peek_paninfo_empty [OF h0, of d] fb_remove_paninfo_empty [OF h0 P]
    show ?thesis by simp
  next
    case False
    then have "?P \<le> length ?q" using len by simp
    with False show ?thesis by simp
  qed
  from rm q'' used have "\<exists>fb'' sigs. fb_remove_paninfo cfg (Some fb') (int i - 1) = Done (OK, Some fb'', sigs) \<and>
              cb_data (buf (paninfo fb'' ! i)) = drop ?P (?q @ r) \<and>
              circbuf_used (buf (paninfo fb'' ! i)) + ?P = circbuf_used (buf (paninfo fb' ! i))"
    by (intro exI [of _ fb''] exI [of _ sigs]) simp
  with a p last show ?thesis
    by (intro exI [of _ fb']) (simp only: simp_thms)
qed

theorem fb_queue_round_trip_witness:
  "\<exists>fb'. fb_add_paninfo example_cfg (Some example_dev) [1, 2, 3, 4] 0 = Done (OK, Some fb') \<and>
      fb_peek_paninfo example_cfg (Some fb') [0, 0, 0, 0] 0 = Done (OK, [1, 2, 3, 4]) \<and>
      (\<exists>fb'' sigs. fb_remove_paninfo example_cfg (Some fb') 0 = Done (OK, Some fb'', sigs) \<and>
         cb_data (buf (paninfo fb'' ! 1)) = [] \<and>
         circbuf_used (buf (paninfo fb'' ! 1)) + 4 = circbuf_used (buf (paninfo fb' ! 1))) \<and>
      fb_peek_paninfo example_cfg (Some example_dev) [0, 0, 0, 0] 0 = Done (- ENOSPC, [0, 0, 0, 0]) \<and>
      fb_remove_paninfo example_cfg (Some example_dev) 0 = Done (- ENOSPC, Some example_dev, [])"
proof -
  have P: "paninfo_size example_cfg = 4" by (simp add: example_cfg_def)
  have q: "cb_data (buf (paninfo example_dev ! Suc 0)) = []"
    by (simp add: example_dev_def example_slot_def)
  have "(2::nat) > 0" "0 < paninfo_size example_cfg"
    "length [1, 2, 3, 4 :: byte] = paninfo_size example_cfg"
    "length [0, 0, 0, 0 :: byte] = paninfo_size example_cfg"
    by (simp_all add: P)
  from fb_queue_round_trip [OF example_dev_holds this]
  show ?thesis by (simp add: P q)
qed

text \<open>
  With a record already pending, the record just enqueued is not the one that peek returns,
  nor the one that dequeue removes.
\<close>

theorem fb_queue_fifo_counterexample:
  "fb_add_paninfo example_cfg (Some (example_queue [1, 2, 3, 4])) [5, 6, 7, 8] 0 =
     Done (OK, Some (example_queue [1, 2, 3, 4, 5, 6, 7, 8])) \<and>
   fb_peek_paninfo example_cfg (Some (example_queue [1, 2, 3, 4, 5, 6, 7, 8])) [0, 0, 0, 0] 0 =
     Done (OK, [1, 2, 3, 4]) \<and>
   fb_remove_paninfo example_cfg (Some (example_queue [1, 2, 3, 4, 5, 6, 7, 8])) 0 =
     Done (OK, Some (example_queue [5, 6, 7, 8]), [])"
  by (simp add: fb_add_paninfo_def fb_peek_paninfo_def fb_remove_paninfo_def fb_pollnotify_def
      fb_do_pollnotify_def fb_get_panbuf_def paninfo_count_def example_queue_def example_dev_def
      example_slot_def example_cfg_def circbuf_write_def circbuf_peek_def circbuf_skip_def
      circbuf_space_def circbuf_used_def set_buf_def OK_def replicate_two)

subsection \<open>C3: resolving a surface identifier\<close>

text \<open>
  C3. The example device has one overlay, so the identifiers in range are \<open>-1\<close> and \<open>0\<close>.
  \<open>FBIOPAN_OVERLAY\<close> hands the overlay number of its argument to \<open>fb_add_paninfo\<close>
  unchecked. With overlay number \<open>1\<close> the call does not return \<open>-EINVAL\<close>: in a build
  without assertions it enqueues into memory past the pan-info array, in a build with
  assertions it stops on the assertion of \<open>fb_get_panbuf\<close>. The same holds of each of the
  four queue operations, for an identifier above the range and for one below it:
  \<open>fb_get_panbuf\<close> never returns the null pointer that they answer with \<open>-EINVAL\<close>.
\<close>

theorem fb_get_panbuf_unchecked:
  "fb_ioctl example_cfg example_hw (FBIOPAN_OVERLAY (example_oinfo\<lparr>o_overlay := 1\<rparr>) [1, 2, 3, 4])
       [] (example_dev, 0) = Undefined \<and>
   fb_ioctl example_cfg_debug example_hw
       (FBIOPAN_OVERLAY (example_oinfo\<lparr>o_overlay := 1\<rparr>) [1, 2, 3, 4])
       [] (example_dev, 0) = AssertFail \<and>
   fb_add_paninfo example_cfg (Some example_dev) [1, 2, 3, 4] 1 = Undefined \<and>
   fb_peek_paninfo example_cfg (Some example_dev) [1, 2, 3, 4] 1 = Undefined \<and>
   fb_remove_paninfo example_cfg (Some example_dev) 1 = Undefined \<and>
   fb_paninfo_count example_cfg (Some example_dev) 1 = Undefined \<and>
   fb_add_paninfo example_cfg (Some example_dev) [1, 2, 3, 4] (- 2) = Undefined \<and>
   fb_peek_paninfo example_cfg (Some example_dev) [1, 2, 3, 4] (- 2) = Undefined \<and>
   fb_remove_paninfo example_cfg (Some example_dev) (- 2) = Undefined \<and>
   fb_paninfo_count example_cfg (Some example_dev) (- 2) = Undefined \<and>
   fb_add_paninfo example_cfg_debug (Some example_dev) [1, 2, 3, 4] 1 = AssertFail \<and>
   fb_peek_paninfo example_cfg_debug (Some example_dev) [1, 2, 3, 4] 1 = AssertFail \<and>
   fb_remove_paninfo example_cfg_debug (Some example_dev) 1 = AssertFail \<and>
   fb_paninfo_count example_cfg_debug (Some example_dev) 1 = AssertFail"
  by (simp add: fb_ioctl_def enqueue_result_def fb_add_paninfo_def fb_peek_paninfo_def
      fb_remove_paninfo_def fb_paninfo_count_def fb_get_panbuf_def paninfo_count_def
      example_dev_def example_oinfo_def example_hw_def example_cfg_debug_def example_cfg_def)

text \<open>
  X4. An identifier \<open>ov\<close> from \<open>-1\<close> up to the number of overlays less one resolves to
  slot \<open>ov + 1\<close>, and every slot is the image of exactly one identifier, so that
  resolution is a bijection between the identifiers in range and the slots. For an
  identifier outside the range none of the four queue operations answers with \<open>-EINVAL\<close>:
  each stops on the assertion of \<open>fb_get_panbuf\<close> in a build with assertions and works on
  memory outside the pan-info array in a build without.
\<close>

theorem fb_get_panbuf_resolves:
  "(- 1 \<le> ov \<and> ov < int (paninfo_count fb) - 1 \<longrightarrow>
      fb_get_panbuf cfg fb ov = Done (Some (nat (ov + 1)))) \<and>
   (i < paninfo_count fb \<longrightarrow> (\<exists>!ov. fb_get_panbuf cfg fb ov = Done (Some i))) \<and>
   (\<not> (- 1 \<le> ov \<and> ov < int (paninfo_count fb) - 1) \<longrightarrow>
      fb_add_paninfo cfg (Some fb) r ov =
        (if debug_assertions cfg then AssertFail else Undefined) \<and>
      fb_peek_paninfo cfg (Some fb) r ov =
        (if debug_assertions cfg then AssertFail else Undefined) \<and>
      fb_remove_paninfo cfg (Some fb) ov =
        (if debug_assertions cfg then AssertFail else Undefined) \<and>
      fb_paninfo_count cfg (Some fb) ov =
        (if debug_assertions cfg then AssertFail else Undefined))"
proof -
  have inside: "fb_get_panbuf cfg fb ov = Done (Some (nat (ov + 1)))"
    if "- 1 \<le> ov \<and> ov < int (paninfo_count fb) - 1"
    using that by (simp add: fb_get_panbuf_def)
  have unique: "\<exists>!ov. fb_get_panbuf cfg fb ov = Done (Some i)" if i: "i < paninfo_count fb"
  proof (rule ex1I [of _ "int i - 1"])
    show "fb_get_panbuf cfg fb (int i - 1) = Done (Some i)"
      using i by (simp add: fb_get_panbuf_def)
  next
    fix ov assume "fb_get_panbuf cfg fb ov = Done (Some i)"
    then show "ov = int i - 1"
      by (auto simp: fb_get_panbuf_def Let_def split: if_splits)
  qed
  have outside: "fb_add_paninfo cfg (Some fb) r ov =
        (if debug_assertions cfg then AssertFail else Undefined) \<and>
      fb_peek_paninfo cfg (Some fb) r ov =
        (if debug_assertions cfg then AssertFail else Undefined) \<and>
      fb_remove_paninfo cfg (Some fb) ov =
        (if debug_assertions cfg then AssertFail else Undefined) \<and>
      fb_paninfo_count cfg (Some fb) ov =
        (if debug_assertions cfg then AssertFail else Undefined)"
    if a: "\<not> (- 1 \<le> ov \<and> ov < int (paninfo_count fb) - 1)"
  proof -
    from a have g: "fb_get_panbuf cfg fb ov =
                      (if debug_assertions cfg then AssertFail else Undefined)"
      by (auto simp: fb_get_panbuf_def Let_def)
    show ?thesis
      by (simp add: g fb_add_paninfo_def fb_peek_paninfo_def fb_remove_paninfo_def
          fb_paninfo_count_def)
  qed
  from inside unique outside show ?thesis by blast
qed

theorem fb_get_panbuf_resolves_witness:
  "fb_get_panbuf example_cfg example_dev 0 = Done (Some 1) \<and>
   (\<exists>!ov. fb_get_panbuf example_cfg example_dev ov = Done (Some 1)) \<and>
   fb_add_paninfo example_cfg (Some example_dev) [1, 2, 3, 4] 1 = Undefined \<and>
   fb_peek_paninfo example_cfg (Some example_dev) [1, 2, 3, 4] 1 = Undefined \<and>
   fb_remove_paninfo example_cfg (Some example_dev) 1 = Undefined \<and>
   fb_paninfo_count example_cfg (Some example_dev) 1 = Undefined"
proof -
  have n: "paninfo_count example_dev = 2"
    by (simp add: paninfo_count_def example_dev_def)
  have d: "\<not> debug_assertions example_cfg"
    by (simp add: example_cfg_def)
  show ?thesis
    using fb_get_panbuf_resolves [of 0 example_dev example_cfg 1 "[1, 2, 3, 4]"]
      fb_get_panbuf_resolves [of 1 example_dev example_cfg 1 "[1, 2, 3, 4]"]
    by (simp add: n d)
qed

subsection \<open>C4: notification after a dequeue\<close>

text \<open>
  C4. The timer that defers the notification belongs to the device, not to the surface:
  \<open>fb_pollnotify\<close> starts the one \<open>wdog\<close> of the device with the slot of the surface as
  argument. Take the example device with a vsync offset of 5, a record pending on the
  primary surface and on overlay 0, waiter 7 registered on the primary surface and
  waiter 8 on the overlay. A dequeue on the primary surface arms the timer for slot 0; a
  dequeue on the overlay before the timer runs out arms it again, for slot 1, and the
  notification pending for slot 0 is gone. When the timer runs out, waiter 8 is
  signalled; waiter 7 is still registered and is signalled neither then nor by a later
  expiry, although a record was dequeued from its surface.
\<close>

theorem fb_pollnotify_shared_timer:
  "\<exists>fb1 fb2 fb3.
     fb_remove_paninfo example_cfg (Some example_vsync_dev) (- 1) = Done (OK, Some fb1, []) \<and>
     wdog fb1 = Some (5, 0) \<and>
     fb_remove_paninfo example_cfg (Some fb1) 0 = Done (OK, Some fb2, []) \<and>
     wdog fb2 = Some (5, 1) \<and>
     wd_expire example_cfg fb2 = Done (fb3, [(8, POLLOUT)]) \<and>
     wd_expire example_cfg fb3 = Done (fb3, []) \<and>
     fds (paninfo fb3 ! 0) = [Some 7, None]"
  by (simp add: fb_remove_paninfo_def fb_pollnotify_def fb_do_pollnotify_def wd_start_def
      wd_expire_def fb_get_panbuf_def paninfo_count_def example_vsync_dev_def example_cfg_def
      circbuf_skip_def circbuf_used_def set_buf_def OK_def)

text \<open>
  X5. A dequeue on a surface with a pending record succeeds and leaves the waiters of the
  surface registered. When the vsync offset of the device is 0, the call signals
  \<open>POLLOUT\<close> to every waiter registered on that surface and leaves the timer alone. When
  the vsync offset is positive, the call itself signals nobody: it arms the one timer of
  the device with that delay and the surface's slot as argument, whatever the timer held
  before. If the timer then runs out with that argument, every waiter registered in that
  slot is signalled and the timer is idle, so that a second expiry signals nobody.
\<close>

theorem fb_dequeue_notifies:
  assumes h: "holds cfg fb i n (Suc k)" and P: "0 < paninfo_size cfg"
    and len: "length (fds (paninfo fb ! i)) = npollwaiters cfg"
  shows "\<exists>fb' sigs.
           fb_remove_paninfo cfg (Some fb) (int i - 1) = Done (OK, Some fb', sigs) \<and>
           holds cfg fb' i n k \<and> fds (paninfo fb' ! i) = fds (paninfo fb ! i) \<and>
           (if vsyncoffset fb = 0
            then wdog fb' = wdog fb \<and>
                 set sigs = (\<lambda>x. (x, POLLOUT)) ` {x. Some x \<in> set (fds (paninfo fb ! i))} \<and>
                 length sigs \<le> npollwaiters cfg
            else sigs = [] \<and> wdog fb' = Some (vsyncoffset fb, i) \<and>
                 (\<exists>sigs'. wd_expire cfg fb' = Done (fb'\<lparr>wdog := None\<rparr>, sigs') \<and>
                    set sigs' = (\<lambda>x. (x, POLLOUT)) ` {x. Some x \<in> set (fds (paninfo fb ! i))} \<and>
                    length sigs' \<le> npollwaiters cfg \<and>
                    wd_expire cfg (fb'\<lparr>wdog := None\<rparr>) = Done (fb'\<lparr>wdog := None\<rparr>, [])))"
proof -
  define b' where "b' = buf (paninfo fb ! i)
                     \<lparr>cb_data := drop (paninfo_size cfg) (cb_data (buf (paninfo fb ! i)))\<rparr>"
  define fb1 where "fb1 = set_buf fb i b'"
  from h have i: "i < paninfo_count fb"
    and ln: "length (cb_data (buf (paninfo fb ! i))) = Suc k * paninfo_size cfg"
    by (simp_all add: holds_def)
  from ln have sk: "circbuf_skip (buf (paninfo fb ! i)) (paninfo_size cfg) =
                       (b', int (paninfo_size cfg))"
    unfolding b'_def by (rule circbuf_skip_record)
  from h have h1: "holds cfg fb1 i n k"
    unfolding fb1_def b'_def by (rule holds_set_buf_skip)
  from i have i1: "i < paninfo_count fb1" by (simp add: fb1_def)
  have f1: "fds (paninfo fb1 ! i) = fds (paninfo fb ! i)" by (simp add: fb1_def)
  have v1: "vsyncoffset fb1 = vsyncoffset fb" and w1: "wdog fb1 = wdog fb"
    by (simp_all add: fb1_def)
  from fb_pollnotify_Done [OF i1, of cfg] obtain fb' sigs where
    n: "fb_pollnotify cfg (Some fb1) (int i - 1) = Done (Some fb', sigs)" and
    eq: "paninfo fb' = paninfo fb1" and
    eff: "if vsyncoffset fb1 > 0
          then sigs = [] \<and> fb' = fb1\<lparr>wdog := Some (vsyncoffset fb1, i)\<rparr>
          else fb' = fb1 \<and> sigs = fb_do_pollnotify cfg (paninfo fb1 ! i)"
    by (elim exE conjE)
  from h1 have h': "holds cfg fb' i n k" by (simp only: holds_paninfo_eq [OF eq])
  from eq f1 have f': "fds (paninfo fb' ! i) = fds (paninfo fb ! i)" by simp
  from n have rm: "fb_remove_paninfo cfg (Some fb) (int i - 1) = Done (OK, Some fb', sigs)"
    unfolding fb1_def by (rule fb_remove_paninfo_unfold [OF i P sk])
  let ?all = "(\<lambda>x. (x, POLLOUT)) ` {x. Some x \<in> set (fds (paninfo fb ! i))}"
  have note_all: "fb_do_pollnotify cfg (paninfo fb1 ! i) = notify_loop (fds (paninfo fb ! i))"
    using len f1 by (simp add: fb_do_pollnotify_all)
  have cnt: "length (notify_loop (fds (paninfo fb ! i))) \<le> npollwaiters cfg"
    using length_notify_loop [of "fds (paninfo fb ! i)"] len by simp
  have last: "if vsyncoffset fb = 0
            then wdog fb' = wdog fb \<and> set sigs = ?all \<and> length sigs \<le> npollwaiters cfg
            else sigs = [] \<and> wdog fb' = Some (vsyncoffset fb, i) \<and>
                 (\<exists>sigs'. wd_expire cfg fb' = Done (fb'\<lparr>wdog := None\<rparr>, sigs') \<and>
                    set sigs' = ?all \<and> length sigs' \<le> npollwaiters cfg \<and>
                    wd_expire cfg (fb'\<lparr>wdog := None\<rparr>) = Done (fb'\<lparr>wdog := None\<rparr>, []))"
  proof (cases "vsyncoffset fb = 0")
    case True
    with eff v1 have "fb' = fb1" "sigs = notify_loop (fds (paninfo fb ! i))"
      by (simp_all add: note_all)
    with True w1 cnt show ?thesis by (simp add: set_notify_loop)
  next
    case False
    with eff v1 have s: "sigs = []" and fb': "fb' = fb1\<lparr>wdog := Some (vsyncoffset fb, i)\<rparr>"
      by simp_all
    have c': "paninfo_count fb' = paninfo_count fb1"
      using eq by (simp add: paninfo_count_def)
    have ex: "wd_expire cfg fb' = Done (fb'\<lparr>wdog := None\<rparr>, notify_loop (fds (paninfo fb ! i)))"
      using i1 c' eq note_all by (simp add: wd_expire_def fb')
    have ex2: "wd_expire cfg (fb'\<lparr>wdog := None\<rparr>) = Done (fb'\<lparr>wdog := None\<rparr>, [])"
      by (simp add: wd_expire_def)
    from False s fb' ex ex2 cnt show ?thesis
      by (simp add: set_notify_loop)
  qed
  from rm h' f' last show ?thesis by blast
qed

theorem fb_dequeue_notifies_witness:
  "(\<exists>fb' sigs. fb_remove_paninfo example_cfg (Some example_sync_dev) (- 1) =
       Done (OK, Some fb', sigs) \<and> set sigs = {(7, POLLOUT)}) \<and>
   (\<exists>fb' sigs'. fb_remove_paninfo example_cfg (Some example_vsync_dev) (- 1) =
       Done (OK, Some fb', []) \<and> wdog fb' = Some (5, 0) \<and>
       wd_expire example_cfg fb' = Done (fb'\<lparr>wdog := None\<rparr>, sigs') \<and>
       set sigs' = {(7, POLLOUT)} \<and>
       wd_expire example_cfg (fb'\<lparr>wdog := None\<rparr>) = Done (fb'\<lparr>wdog := None\<rparr>, []))"
proof -
  have P: "0 < paninfo_size example_cfg" by (simp add: example_cfg_def)
  have hs: "holds example_cfg example_sync_dev 0 2 (Suc 0)"
    and ls: "length (fds (paninfo example_sync_dev ! 0)) = npollwaiters example_cfg"
    and vs: "vsyncoffset example_sync_dev = 0"
    and fs: "fds (paninfo example_sync_dev ! 0) = [Some 7, None]"
    by (simp_all add: holds_def paninfo_count_def example_sync_dev_def example_vsync_dev_def
        example_cfg_def)
  have hv: "holds example_cfg example_vsync_dev 0 2 (Suc 0)"
    and lv: "length (fds (paninfo example_vsync_dev ! 0)) = npollwaiters example_cfg"
    and vv: "vsyncoffset example_vsync_dev = 5"
    and fv: "fds (paninfo example_vsync_dev ! 0) = [Some 7, None]"
    by (simp_all add: holds_def paninfo_count_def example_vsync_dev_def example_cfg_def)
  have all: "(\<lambda>x. (x, POLLOUT)) ` {x. Some x \<in> set [Some (7::nat), None]} = {(7, POLLOUT)}"
    by auto
  from fb_dequeue_notifies [OF hs P ls] have a:
    "\<exists>fb' sigs. fb_remove_paninfo example_cfg (Some example_sync_dev) (- 1) =
       Done (OK, Some fb', sigs) \<and> set sigs = {(7, POLLOUT)}"
    unfolding fs all by (auto simp: vs)
  from fb_dequeue_notifies [OF hv P lv] have b:
    "\<exists>fb' sigs'. fb_remove_paninfo example_cfg (Some example_vsync_dev) (- 1) =
       Done (OK, Some fb', []) \<and> wdog fb' = Some (5, 0) \<and>
       wd_expire example_cfg fb' = Done (fb'\<lparr>wdog := None\<rparr>, sigs') \<and>
       set sigs' = {(7, POLLOUT)} \<and>
       wd_expire example_cfg (fb'\<lparr>wdog := None\<rparr>) = Done (fb'\<lparr>wdog := None\<rparr>, [])"
    unfolding fv all by (auto simp: vv)
  from a b show ?thesis by (rule conjI)
qed

subsection \<open>Facts about the waiter array\<close>



lemma set_fds_buf [simp]:
  "buf (paninfo (set_fds fb s f) ! i) = buf (paninfo fb ! i)"
  by (cases "s < length (paninfo fb)")
    (simp_all add: set_fds_def nth_list_update list_update_beyond not_less)

lemma set_fds_count [simp]: "paninfo_count (set_fds fb s f) = paninfo_count fb"
  by (simp add: set_fds_def paninfo_count_def)

subsection \<open>C5: poll setup and teardown\<close>



subsection \<open>Facts about the pan commands\<close>

lemma map_outcome_enqueue_result:
  "map_outcome fst (enqueue_result fb h r) = map_outcome fst r"
  by (cases r) (auto simp: enqueue_result_def)

lemma example_enqueue_primary:
  "fb_add_paninfo example_cfg (Some example_dev) ([1, 2] @ drop (length [1, 2 :: byte]) [9, 9, 9, 9])
     FB_NO_OVERLAY =
     Done (OK, Some (set_buf example_dev 0 \<lparr>cb_size = 8, cb_data = [1, 2, 9, 9]\<rparr>))"
  by (simp add: fb_add_paninfo_def fb_get_panbuf_def paninfo_count_def example_dev_def
      example_slot_def example_cfg_def circbuf_write_def circbuf_space_def circbuf_used_def
      set_buf_def OK_def FB_NO_OVERLAY_def)

lemma example_enqueue_overlay:
  "fb_add_paninfo example_cfg (Some example_dev) ([1, 2] @ drop (length [1, 2 :: byte]) [9, 9, 9, 9])
     (int (o_overlay example_oinfo)) =
     Done (OK, Some (example_queue [1, 2, 9, 9]))"
  by (simp add: fb_add_paninfo_def fb_get_panbuf_def paninfo_count_def example_dev_def
      example_slot_def example_cfg_def circbuf_write_def circbuf_space_def circbuf_used_def
      set_buf_def OK_def example_oinfo_def example_queue_def)

subsection \<open>C6: the pan commands of ioctl and the hardware pan hook\<close>

text \<open>
  C6. For the command that pans the primary display, and for the command that pans an
  overlay where overlays are configured, the value that \<open>fb_ioctl\<close> returns is the value
  that the enqueue of the pan record returns, whether the hardware has a pan hook or not
  and whatever the hook returns. In particular, when the hook fails and the enqueue
  succeeds, \<open>fb_ioctl\<close> returns \<open>OK\<close>.
\<close>

theorem fb_ioctl_pan_result:
  "map_outcome fst (fb_ioctl cfg vt (FBIOPAN_DISPLAY pinfo img) junk (fb, h)) =
     map_outcome fst (fb_add_paninfo cfg (Some fb) (img @ drop (length img) junk) FB_NO_OVERLAY) \<and>
   (fb_overlay cfg \<longrightarrow>
      map_outcome fst (fb_ioctl cfg vt (FBIOPAN_OVERLAY oinfo img) junk (fb, h)) =
        map_outcome fst
          (fb_add_paninfo cfg (Some fb) (img @ drop (length img) junk)
             (int (o_overlay (case panoverlay vt of None \<Rightarrow> oinfo
                              | Some hook \<Rightarrow> snd (snd (hook oinfo h))))))) \<and>
   (pandisplay vt = Some dhook \<and> fst (dhook pinfo h) < 0 \<and>
    fb_add_paninfo cfg (Some fb) (img @ drop (length img) junk) FB_NO_OVERLAY =
      Done (OK, Some fb') \<longrightarrow>
      fb_ioctl cfg vt (FBIOPAN_DISPLAY pinfo img) junk (fb, h) =
        Done (OK, (fb', snd (dhook pinfo h)))) \<and>
   (fb_overlay cfg \<and> panoverlay vt = Some ohook \<and> fst (ohook oinfo h) < 0 \<and>
    fb_add_paninfo cfg (Some fb) (img @ drop (length img) junk)
      (int (o_overlay (snd (snd (ohook oinfo h))))) = Done (OK, Some fb') \<longrightarrow>
      fb_ioctl cfg vt (FBIOPAN_OVERLAY oinfo img) junk (fb, h) =
        Done (OK, (fb', fst (snd (ohook oinfo h)))))"
proof -
  have d: "map_outcome fst (fb_ioctl cfg vt (FBIOPAN_DISPLAY pinfo img) junk (fb, h)) =
     map_outcome fst (fb_add_paninfo cfg (Some fb) (img @ drop (length img) junk) FB_NO_OVERLAY)"
    by (simp add: fb_ioctl_def Let_def map_outcome_enqueue_result)
  have o: "map_outcome fst (fb_ioctl cfg vt (FBIOPAN_OVERLAY oinfo img) junk (fb, h)) =
        map_outcome fst
          (fb_add_paninfo cfg (Some fb) (img @ drop (length img) junk)
             (int (o_overlay (case panoverlay vt of None \<Rightarrow> oinfo
                              | Some hook \<Rightarrow> snd (snd (hook oinfo h))))))"
    if "fb_overlay cfg"
    using that
    by (cases "panoverlay vt")
      (simp_all add: fb_ioctl_def Let_def split_beta map_outcome_enqueue_result)
  have d2: "fb_ioctl cfg vt (FBIOPAN_DISPLAY pinfo img) junk (fb, h) =
        Done (OK, (fb', snd (dhook pinfo h)))"
    if "pandisplay vt = Some dhook \<and> fst (dhook pinfo h) < 0 \<and>
        fb_add_paninfo cfg (Some fb) (img @ drop (length img) junk) FB_NO_OVERLAY =
          Done (OK, Some fb')"
    using that by (simp add: fb_ioctl_def Let_def split_beta enqueue_result_def)
  have o2: "fb_ioctl cfg vt (FBIOPAN_OVERLAY oinfo img) junk (fb, h) =
        Done (OK, (fb', fst (snd (ohook oinfo h))))"
    if "fb_overlay cfg \<and> panoverlay vt = Some ohook \<and> fst (ohook oinfo h) < 0 \<and>
        fb_add_paninfo cfg (Some fb) (img @ drop (length img) junk)
          (int (o_overlay (snd (snd (ohook oinfo h))))) = Done (OK, Some fb')"
    using that by (simp add: fb_ioctl_def Let_def split_beta enqueue_result_def)
  show ?thesis
  proof (intro conjI impI)
    show "map_outcome fst (fb_ioctl cfg vt (FBIOPAN_DISPLAY pinfo img) junk (fb, h)) =
     map_outcome fst (fb_add_paninfo cfg (Some fb) (img @ drop (length img) junk) FB_NO_OVERLAY)"
      by (rule d)
  next
    assume "fb_overlay cfg"
    then show "map_outcome fst (fb_ioctl cfg vt (FBIOPAN_OVERLAY oinfo img) junk (fb, h)) =
        map_outcome fst
          (fb_add_paninfo cfg (Some fb) (img @ drop (length img) junk)
             (int (o_overlay (case panoverlay vt of None \<Rightarrow> oinfo
                              | Some hook \<Rightarrow> snd (snd (hook oinfo h))))))"
      by (rule o)
  next
    assume "pandisplay vt = Some dhook \<and> fst (dhook pinfo h) < 0 \<and>
        fb_add_paninfo cfg (Some fb) (img @ drop (length img) junk) FB_NO_OVERLAY =
          Done (OK, Some fb')"
    then show "fb_ioctl cfg vt (FBIOPAN_DISPLAY pinfo img) junk (fb, h) =
        Done (OK, (fb', snd (dhook pinfo h)))"
      by (rule d2)
  next
    assume "fb_overlay cfg \<and> panoverlay vt = Some ohook \<and> fst (ohook oinfo h) < 0 \<and>
        fb_add_paninfo cfg (Some fb) (img @ drop (length img) junk)
          (int (o_overlay (snd (snd (ohook oinfo h))))) = Done (OK, Some fb')"
    then show "fb_ioctl cfg vt (FBIOPAN_OVERLAY oinfo img) junk (fb, h) =
        Done (OK, (fb', fst (snd (ohook oinfo h))))"
      by (rule o2)
  qed
qed

theorem fb_ioctl_pan_result_witness:
  "fb_ioctl example_cfg (example_hw_pan (- 5)) (FBIOPAN_DISPLAY example_pinfo [1, 2]) [9, 9, 9, 9]
     (example_dev, 0) =
     Done (OK, (set_buf example_dev 0 \<lparr>cb_size = 8, cb_data = [1, 2, 9, 9]\<rparr>, 1)) \<and>
   fb_ioctl example_cfg (example_hw_pan (- 5)) (FBIOPAN_OVERLAY example_oinfo [1, 2]) [9, 9, 9, 9]
     (example_dev, 0) =
     Done (OK, (example_queue [1, 2, 9, 9], 1))"
proof -
  have ov: "fb_overlay example_cfg" by (simp add: example_cfg_def)
  have pd: "pandisplay (example_hw_pan (- 5)) = Some (\<lambda>pinfo h. (- 5, Suc h))"
    and po: "panoverlay (example_hw_pan (- 5)) = Some (\<lambda>oinfo h. (- 5, Suc h, oinfo))"
    by (simp_all add: example_hw_pan_def)
  from fb_ioctl_pan_result [of example_cfg "example_hw_pan (- 5)" example_pinfo "[1, 2]"
      "[9, 9, 9, 9]" example_dev 0 example_oinfo "\<lambda>pinfo h. (- 5, Suc h)"
      "set_buf example_dev 0 \<lparr>cb_size = 8, cb_data = [1, 2, 9, 9]\<rparr>"
      "\<lambda>oinfo h. (- 5, Suc h, oinfo)"]
  have a: "fb_ioctl example_cfg (example_hw_pan (- 5)) (FBIOPAN_DISPLAY example_pinfo [1, 2])
             [9, 9, 9, 9] (example_dev, 0) =
           Done (OK, (set_buf example_dev 0 \<lparr>cb_size = 8, cb_data = [1, 2, 9, 9]\<rparr>, 1))"
    using pd example_enqueue_primary by simp
  from fb_ioctl_pan_result [of example_cfg "example_hw_pan (- 5)" example_pinfo "[1, 2]"
      "[9, 9, 9, 9]" example_dev 0 example_oinfo "\<lambda>pinfo h. (- 5, Suc h)"
      "example_queue [1, 2, 9, 9]"
      "\<lambda>oinfo h. (- 5, Suc h, oinfo)"]
  have b: "fb_ioctl example_cfg (example_hw_pan (- 5)) (FBIOPAN_OVERLAY example_oinfo [1, 2])
             [9, 9, 9, 9] (example_dev, 0) =
           Done (OK, (example_queue [1, 2, 9, 9], 1))"
    using ov po example_enqueue_overlay by simp
  from a b show ?thesis by simp
qed

subsection \<open>Facts about the reference counter\<close>

lemma sint_crefs_inc:
  fixes w :: "16 word"
  shows "sint w < 32767 \<Longrightarrow> sint (w + 1) = sint w + 1"
proof -
  assume a: "sint w < 32767"
  have "- (2 ^ (LENGTH(16) - 1)) \<le> sint w" by (rule sint_ge)
  then have b: "- 32768 \<le> sint w" by simp
  have "sint (w + 1) = signed_take_bit (LENGTH(16) - 1) (sint w + sint (1 :: 16 word))"
    by (rule sint_word_add)
  also have "\<dots> = signed_take_bit 15 (sint w + 1)" by simp
  also have "\<dots> = sint w + 1"
    using a b by (intro signed_take_bit_int_eq_self) simp_all
  finally show ?thesis .
qed

lemma sint_crefs_dec:
  fixes w :: "16 word"
  shows "0 < sint w \<Longrightarrow> sint (w - 1) = sint w - 1"
proof -
  assume a: "0 < sint w"
  have "sint w < 2 ^ (LENGTH(16) - 1)" by (rule sint_lt)
  then have b: "sint w < 32768" by simp
  have "sint (w - 1) = signed_take_bit (LENGTH(16) - 1) (sint w - sint (1 :: 16 word))"
    by (simp add: sint_word_ariths)
  also have "\<dots> = signed_take_bit 15 (sint w - 1)" by simp
  also have "\<dots> = sint w - 1"
    using a b by (intro signed_take_bit_int_eq_self) simp_all
  finally show ?thesis .
qed

lemma crefs_eq_0_iff: "(w :: 16 word) = 0 \<longleftrightarrow> sint w = 0"
  by (simp add: word_eq_iff_signed [where ?'a = int])

lemma crefs_eq_1_iff: "(w :: 16 word) = 1 \<longleftrightarrow> sint w = 1"
  by (simp add: word_eq_iff_signed [where ?'a = int])

lemma open_files_upd_Some:
  "f_priv x \<noteq> None \<Longrightarrow> open_files (files(f := x)) = insert f (open_files files)"
  by (auto simp: open_files_def)

lemma open_files_upd_None:
  "f_priv x = None \<Longrightarrow> open_files (files(f := x)) = open_files files - {f}"
  by (auto simp: open_files_def)

lemma fb_open_cases:
  assumes lo: "0 \<le> sint (crefs fb)" and hi: "sint (crefs fb) < 32767"
  shows "\<exists>ret fb' h' filep' called.
           fb_open cfg vt lock_ret alloc_ok (fb, h) filep = Done (ret, (fb', h'), filep', called) \<and>
           called = (if sint (crefs fb) = 0 \<and> 0 \<le> lock_ret \<and> alloc_ok \<and> vt_open vt \<noteq> None
                     then [HwOpen] else []) \<and>
           (if ret = 0
            then sint (crefs fb') = sint (crefs fb) + 1 \<and> f_priv filep' \<noteq> None
            else ret < 0 \<and> fb' = fb \<and> filep' = filep)"
proof -
  have inc: "sint (crefs fb + 1) = sint (crefs fb) + 1"
    using hi by (rule sint_crefs_inc)
  show ?thesis
    using lo by (cases "vt_open vt")
      (auto simp: fb_open_def Let_def split_beta inc ENOMEM_def crefs_eq_0_iff)
qed

lemma fb_close_cases:
  assumes lo: "0 < sint (crefs fb)" and p: "f_priv filep \<noteq> None"
  shows "\<exists>ret fb' h' filep' called.
           fb_close cfg vt lock_ret (fb, h) filep = Done (ret, (fb', h'), filep', called) \<and>
           called = (if sint (crefs fb) = 1 \<and> 0 \<le> lock_ret \<and> vt_close vt \<noteq> None
                     then [HwClose] else []) \<and>
           (if 0 \<le> ret
            then sint (crefs fb') = sint (crefs fb) - 1 \<and> f_priv filep' = None
            else fb' = fb \<and> filep' = filep)"
proof -
  have dec: "sint (crefs fb - 1) = sint (crefs fb) - 1"
    using lo by (rule sint_crefs_dec)
  from p obtain priv where priv: "f_priv filep = Some priv" by auto
  show ?thesis
    by (cases "vt_close vt")
      (auto simp: fb_close_def Let_def split_beta dec lo priv crefs_eq_1_iff)
qed

text \<open>
  A close on a file without per-open-file state stops on the assertion in a build with
  assertions; without them it decrements the counter like any other close.
\<close>

lemma fb_close_no_priv:
  "fb_close example_cfg example_hw 0 (example_dev, 0) (no_files 0) =
     Done (0, (example_dev\<lparr>crefs := - 1\<rparr>, 0), no_files 0, []) \<and>
   fb_close example_cfg_debug example_hw 0 (example_dev\<lparr>crefs := 1\<rparr>, 0) (no_files 0) =
     AssertFail"
  by (simp add: fb_close_def example_cfg_debug_def example_cfg_def example_hw_def
      example_dev_def no_files_def)

lemma do_call_step:
  assumes c: "consistent s" and a: "admissible c s"
  shows "\<exists>stp s'. do_call cfg vt c s = Done (stp, s') \<and> consistent s' \<and> step_ok vt stp"
proof -
  obtain fb h files where s: "s = ((fb, h), files)"
    by (metis surj_pair)
  from c s have fin: "finite (open_files files)"
    and cnt: "sint (crefs fb) = int (card (open_files files))"
    by (simp_all add: consistent_def)
  show ?thesis
  proof (cases c)
    case (Open f lock_ret alloc_ok)
    with a s have closed: "f_priv (files f) = None" and hi: "sint (crefs fb) < 32767"
      by simp_all
    from cnt have lo: "0 \<le> sint (crefs fb)" by simp
    from closed have notin: "f \<notin> open_files files" by (simp add: open_files_def)
    from fb_open_cases [OF lo hi, of cfg vt lock_ret alloc_ok h "files f"]
    obtain ret fb' h' filep' called where
      r: "fb_open cfg vt lock_ret alloc_ok (fb, h) (files f) = Done (ret, (fb', h'), filep', called)"
      and called: "called = (if sint (crefs fb) = 0 \<and> 0 \<le> lock_ret \<and> alloc_ok \<and> vt_open vt \<noteq> None
                     then [HwOpen] else [])"
      and eff: "if ret = 0
            then sint (crefs fb') = sint (crefs fb) + 1 \<and> f_priv filep' \<noteq> None
            else ret < 0 \<and> fb' = fb \<and> filep' = files f"
      by blast
    have cons: "consistent ((fb', h'), files(f := filep'))"
    proof (cases "ret = 0")
      case True
      with eff have "open_files (files(f := filep')) = insert f (open_files files)"
        by (simp add: open_files_upd_Some)
      with True eff fin notin cnt show ?thesis by (simp add: consistent_def)
    next
      case False
      with eff have "files(f := filep') = files" "fb' = fb" by simp_all
      with fin cnt show ?thesis by (simp add: consistent_def)
    qed
    have ok: "step_ok vt \<lparr>st_call = Open f lock_ret alloc_ok, st_before = sint (crefs fb),
              st_after = sint (crefs fb'), st_ret = ret, st_hooks = called\<rparr>"
      using lo eff called by (auto simp: step_ok_def)
    from r cons ok show ?thesis by (simp add: s Open)
  next
    case (Close f lock_ret)
    with a s have isopen: "f_priv (files f) \<noteq> None" by simp
    then have "f \<in> open_files files" by (simp add: open_files_def)
    with fin have "0 < card (open_files files)" by (auto simp: card_gt_0_iff)
    with cnt have lo: "0 < sint (crefs fb)" by simp
    from fb_close_cases [OF lo isopen, of cfg vt lock_ret h]
    obtain ret fb' h' filep' called where
      r: "fb_close cfg vt lock_ret (fb, h) (files f) = Done (ret, (fb', h'), filep', called)"
      and called: "called = (if sint (crefs fb) = 1 \<and> 0 \<le> lock_ret \<and> vt_close vt \<noteq> None
                     then [HwClose] else [])"
      and eff: "if 0 \<le> ret
            then sint (crefs fb') = sint (crefs fb) - 1 \<and> f_priv filep' = None
            else fb' = fb \<and> filep' = files f"
      by blast
    have cons: "consistent ((fb', h'), files(f := filep'))"
    proof (cases "0 \<le> ret")
      case True
      with eff have "open_files (files(f := filep')) = open_files files - {f}"
        by (simp add: open_files_upd_None)
      with True eff fin \<open>f \<in> open_files files\<close> cnt \<open>0 < card (open_files files)\<close>
      show ?thesis by (simp add: consistent_def)
    next
      case False
      with eff have "files(f := filep') = files" "fb' = fb" by simp_all
      with fin cnt show ?thesis by (simp add: consistent_def)
    qed
    have ok: "step_ok vt \<lparr>st_call = Close f lock_ret, st_before = sint (crefs fb),
              st_after = sint (crefs fb'), st_ret = ret, st_hooks = called\<rparr>"
      using lo eff called by (auto simp: step_ok_def)
    from r cons ok show ?thesis by (simp add: s Close)
  qed
qed

lemma run_disciplined:
  "consistent s \<Longrightarrow> disciplined cfg vt cs s \<Longrightarrow>
   \<exists>stps s'. run cfg vt cs s = Done (stps, s') \<and> consistent s' \<and> list_all (step_ok vt) stps"
proof (induction cs arbitrary: s)
  case Nil
  then show ?case by simp
next
  case (Cons c cs)
  from Cons.prems have adm: "admissible c s" by simp
  from do_call_step [OF Cons.prems(1) adm, of cfg vt] obtain stp s1 where
    d: "do_call cfg vt c s = Done (stp, s1)" and c1: "consistent s1" and ok: "step_ok vt stp"
    by blast
  from Cons.prems(2) d have "disciplined cfg vt cs s1" by simp
  from Cons.IH [OF c1 this] obtain stps s' where
    "run cfg vt cs s1 = Done (stps, s')" "consistent s'" "list_all (step_ok vt) stps"
    by blast
  with d ok show ?case by simp
qed

lemma two_opens_two_closes:
  assumes ho: "vt_open vt = Some ho" and hc: "vt_close vt = Some hc"
    and oko: "\<forall>x. 0 \<le> fst (ho x)" and okc: "\<forall>x. 0 \<le> fst (hc x)"
    and fg: "f \<noteq> g" and z: "crefs fb = 0" and nf: "\<forall>f. f_priv (files f) = None"
  shows "\<exists>stps s'. run cfg vt [Open f 0 True, Open g 0 True, Close f 0, Close g 0]
                      ((fb, h), files) = Done (stps, s') \<and>
           map st_hooks stps = [[HwOpen], [], [], [HwClose]]"
proof -
  from oko have o: "\<not> fst (ho x) < 0" for x by (simp add: not_less)
  from okc have c: "\<not> fst (hc x) < 0" "0 \<le> fst (hc x)" for x by (simp_all add: not_less)
  show ?thesis
    using fg by (simp add: fb_open_def fb_close_def ho hc z nf o c split_beta)
qed

lemma fb_open_plain:
  assumes nd: "\<not> debug_assertions cfg" and nh: "vt_open vt = None"
  shows "fb_open cfg vt 0 True (fb, h) filep =
           Done (0, (fb\<lparr>crefs := crefs fb + 1\<rparr>, h),
                 filep\<lparr>f_priv := Some \<lparr>overlay = FB_NO_OVERLAY\<rparr>\<rparr>, [])"
  by (simp add: fb_open_def nd nh)

lemma run_opens:
  assumes nd: "\<not> debug_assertions cfg" and nh: "vt_open vt = None"
  shows "\<exists>stps fb' files'. run cfg vt (opens n) ((fb, h), files) = Done (stps, ((fb', h), files')) \<and>
           crefs fb' = crefs fb + of_nat n"
proof (induction n arbitrary: fb files)
  case 0
  then show ?case by simp
next
  case (Suc n)
  let ?fb1 = "fb\<lparr>crefs := crefs fb + 1\<rparr>"
  let ?files1 = "files(n := (files n)\<lparr>f_priv := Some \<lparr>overlay = FB_NO_OVERLAY\<rparr>\<rparr>)"
  from Suc [of ?fb1 ?files1] obtain stps fb' files' where
    r: "run cfg vt (opens n) ((?fb1, h), ?files1) = Done (stps, ((fb', h), files'))" and
    c: "crefs fb' = crefs ?fb1 + of_nat n"
    by (elim exE conjE)
  from c have c': "crefs fb' = crefs fb + of_nat (Suc n)" by simp
  have "run cfg vt (opens (Suc n)) ((fb, h), files) =
          Done (\<lparr>st_call = Open n 0 True, st_before = sint (crefs fb),
                  st_after = sint (crefs ?fb1), st_ret = 0, st_hooks = []\<rparr> # stps,
                ((fb', h), files'))"
    by (simp add: fb_open_plain [OF nd nh] r)
  with c' show ?case by blast
qed

subsection \<open>C7: reference counting over open and close calls\<close>

text \<open>
  C7. The counter is an \<open>int16_t\<close> and \<open>fb_open\<close> increments it unchecked. Start with
  the counter at 0 and open 32768 different files, closing none. In a build without
  assertions every open returns 0 and the last one takes the counter from 32767 to
  \<open>-32768\<close>: the counter is negative with 32768 files open. In a build with assertions
  the open that finds the counter at 32767 does not return: it stops on the assertion
  \<open>fb->crefs > 0\<close> that follows the increment.
\<close>

theorem fb_open_crefs_wraps:
  "(\<exists>stps s'. run example_cfg example_hw (opens 32768) ((example_dev, 0), no_files) =
                 Done (stps, s') \<and>
      sint (crefs (fst (fst s'))) = - 32768) \<and>
   fb_open example_cfg example_hw 0 True (example_dev\<lparr>crefs := 32767\<rparr>, 0) (no_files 0) =
     Done (0, (example_dev\<lparr>crefs := - 32768\<rparr>, 0),
           (no_files 0)\<lparr>f_priv := Some \<lparr>overlay = FB_NO_OVERLAY\<rparr>\<rparr>, []) \<and>
   sint (crefs (example_dev\<lparr>crefs := - 32768\<rparr>)) = - 32768 \<and>
   fb_open example_cfg_debug example_hw 0 True (example_dev\<lparr>crefs := 32767\<rparr>, 0) (no_files 0) =
     AssertFail"
proof -
  have nd: "\<not> debug_assertions example_cfg" by (simp add: example_cfg_def)
  have nh: "vt_open example_hw = None" by (simp add: example_hw_def)
  from run_opens [OF nd nh, of 32768 example_dev 0 no_files] obtain stps fb' files' where
    r: "run example_cfg example_hw (opens 32768) ((example_dev, 0), no_files) =
          Done (stps, ((fb', 0), files'))"
    and c: "crefs fb' = crefs example_dev + of_nat 32768"
    by blast
  from c have "sint (crefs fb') = - 32768" by (simp add: example_dev_def)
  with r have a: "\<exists>stps s'. run example_cfg example_hw (opens 32768) ((example_dev, 0), no_files) =
                 Done (stps, s') \<and> sint (crefs (fst (fst s'))) = - 32768"
    by simp
  have w: "(32767 :: 16 word) + 1 = - 32768" by simp
  have b: "fb_open example_cfg example_hw 0 True (example_dev\<lparr>crefs := 32767\<rparr>, 0) (no_files 0) =
     Done (0, (example_dev\<lparr>crefs := - 32768\<rparr>, 0),
           (no_files 0)\<lparr>f_priv := Some \<lparr>overlay = FB_NO_OVERLAY\<rparr>\<rparr>, [])"
    by (simp add: fb_open_def example_cfg_def example_hw_def example_dev_def w)
  have s: "sint (crefs (example_dev\<lparr>crefs := - 32768\<rparr>)) = - 32768"
    by simp
  have d: "fb_open example_cfg_debug example_hw 0 True (example_dev\<lparr>crefs := 32767\<rparr>, 0)
             (no_files 0) = AssertFail"
    by (simp add: fb_open_def example_cfg_debug_def example_cfg_def example_hw_def
        example_dev_def w)
  from a b s d show ?thesis by (simp only: simp_thms)
qed

text \<open>
  X6. Start with the counter at 0 and no file open, and make any sequence of open and
  close calls in which every open is on a fresh file, every close on an open file, and no
  open is made while the counter stands at 32767. Then every call returns, the counter is
  never negative, the open hook is invoked exactly by the opens that find the counter at
  0 and the close hook exactly by the closes that find it at 1, whether the hook then
  succeeds or fails, and the counter moves by one exactly when the call succeeds. In
  particular, with hooks that succeed, two opens followed by two closes invoke the open
  hook in the first open only and the close hook in the second close only.
\<close>

theorem fb_open_close_sequences:
  assumes z: "crefs fb = 0" and nf: "\<forall>f. f_priv (files f) = None"
    and d: "disciplined cfg vt cs ((fb, h), files)"
  shows "\<exists>stps s'. run cfg vt cs ((fb, h), files) = Done (stps, s') \<and>
           list_all (step_ok vt) stps \<and> 0 \<le> sint (crefs (fst (fst s'))) \<and>
           (vt_open vt = Some ho \<and> vt_close vt = Some hc \<and>
            (\<forall>x. 0 \<le> fst (ho x)) \<and> (\<forall>x. 0 \<le> fst (hc x)) \<and> f \<noteq> g \<and>
            cs = [Open f 0 True, Open g 0 True, Close f 0, Close g 0] \<longrightarrow>
              map st_hooks stps = [[HwOpen], [], [], [HwClose]])"
proof -
  from nf have "open_files files = {}" by (simp add: open_files_def)
  with z have "consistent ((fb, h), files)" by (simp add: consistent_def)
  from run_disciplined [OF this d] obtain stps s' where
    r: "run cfg vt cs ((fb, h), files) = Done (stps, s')" and c: "consistent s'"
    and ok: "list_all (step_ok vt) stps"
    by blast
  from c have nn: "0 \<le> sint (crefs (fst (fst s')))" by (simp add: consistent_def)
  have scen: "map st_hooks stps = [[HwOpen], [], [], [HwClose]]"
    if t: "vt_open vt = Some ho \<and> vt_close vt = Some hc \<and>
        (\<forall>x. 0 \<le> fst (ho x)) \<and> (\<forall>x. 0 \<le> fst (hc x)) \<and> f \<noteq> g \<and>
        cs = [Open f 0 True, Open g 0 True, Close f 0, Close g 0]"
  proof -
    from t have ho: "vt_open vt = Some ho" and hc: "vt_close vt = Some hc"
      and oko: "\<forall>x. 0 \<le> fst (ho x)" and okc: "\<forall>x. 0 \<le> fst (hc x)" and fg: "f \<noteq> g"
      and cs: "cs = [Open f 0 True, Open g 0 True, Close f 0, Close g 0]"
      by blast+
    from two_opens_two_closes [OF ho hc oko okc fg z nf, of cfg h] obtain stps2 s2 where
      r2: "run cfg vt [Open f 0 True, Open g 0 True, Close f 0, Close g 0] ((fb, h), files) =
            Done (stps2, s2)"
      and m: "map st_hooks stps2 = [[HwOpen], [], [], [HwClose]]"
      by (elim exE conjE)
    from r r2 have "stps2 = stps" by (simp only: cs outcome.inject prod.inject)
    with m show ?thesis by simp
  qed
  show ?thesis
  proof (intro exI conjI impI)
    show "run cfg vt cs ((fb, h), files) = Done (stps, s')" by (rule r)
    show "list_all (step_ok vt) stps" by (rule ok)
    show "0 \<le> sint (crefs (fst (fst s')))" by (rule nn)
    assume "vt_open vt = Some ho \<and> vt_close vt = Some hc \<and>
        (\<forall>x. 0 \<le> fst (ho x)) \<and> (\<forall>x. 0 \<le> fst (hc x)) \<and> f \<noteq> g \<and>
        cs = [Open f 0 True, Open g 0 True, Close f 0, Close g 0]"
    then show "map st_hooks stps = [[HwOpen], [], [], [HwClose]]" by (rule scen)
  qed
qed

theorem fb_open_close_sequences_witness:
  "\<exists>stps s'. run example_cfg_debug (example_hw_hooks 0 0)
                [Open 1 0 True, Open 2 0 True, Close 1 0, Close 2 0]
                ((example_dev, 0), no_files) = Done (stps, s') \<and>
     list_all (step_ok (example_hw_hooks 0 0)) stps \<and> 0 \<le> sint (crefs (fst (fst s'))) \<and>
     map st_hooks stps = [[HwOpen], [], [], [HwClose]]"
proof -
  have z: "crefs example_dev = 0" by (simp add: example_dev_def)
  have nf: "\<forall>f. f_priv (no_files f) = None" by (simp add: no_files_def)
  have d: "disciplined example_cfg_debug (example_hw_hooks 0 0)
             [Open 1 0 True, Open 2 0 True, Close 1 0, Close 2 0] ((example_dev, 0), no_files)"
    by (simp add: fb_open_def fb_close_def example_hw_hooks_def example_dev_def no_files_def
        example_cfg_debug_def example_cfg_def)
  from fb_open_close_sequences [OF z nf d, of "\<lambda>h. (0, Suc h)" "\<lambda>h. (0, Suc h)" 1 2]
  show ?thesis
    by (simp add: example_hw_hooks_def)
qed

subsection \<open>C8: close and the hardware close hook\<close>

text \<open>
  C8, as the code has it. Take a close call on an open file. If the call gets the device
  lock: when the counter is 1 and the hardware close hook fails (returns a negative
  value), the call returns the hook's value, and the device with its counter and the
  file with its per-open-file state are as before; when the counter is 1 and the hook
  succeeds, or the hook is absent, or the counter exceeds 1, the counter is decremented
  and the per-open-file state is freed. If the call does not get the device lock, it
  returns the value of the lock, invokes no hook and changes nothing, whatever the
  counter and the hook.
\<close>

theorem fb_close_hook_result:
  assumes p: "f_priv filep = Some priv"
  shows "(0 \<le> lock_ret \<and> crefs fb = 1 \<and> vt_close vt = Some hook \<and> fst (hook h) < 0 \<longrightarrow>
            fb_close cfg vt lock_ret (fb, h) filep =
              Done (fst (hook h), (fb, snd (hook h)), filep, [HwClose])) \<and>
         (0 \<le> lock_ret \<and> crefs fb = 1 \<and> vt_close vt = Some hook \<and> 0 \<le> fst (hook h) \<longrightarrow>
            fb_close cfg vt lock_ret (fb, h) filep =
              Done (fst (hook h), (fb\<lparr>crefs := crefs fb - 1\<rparr>, snd (hook h)),
                    filep\<lparr>f_priv := None\<rparr>, [HwClose])) \<and>
         (0 \<le> lock_ret \<and> ((crefs fb = 1 \<and> vt_close vt = None) \<or> 1 < sint (crefs fb)) \<longrightarrow>
            fb_close cfg vt lock_ret (fb, h) filep =
              Done (lock_ret, (fb\<lparr>crefs := crefs fb - 1\<rparr>, h), filep\<lparr>f_priv := None\<rparr>, [])) \<and>
         (lock_ret < 0 \<longrightarrow>
            fb_close cfg vt lock_ret (fb, h) filep = Done (lock_ret, (fb, h), filep, []))"
proof -
  have fail: "fb_close cfg vt lock_ret (fb, h) filep =
              Done (fst (hook h), (fb, snd (hook h)), filep, [HwClose])"
    if "0 \<le> lock_ret \<and> crefs fb = 1 \<and> vt_close vt = Some hook \<and> fst (hook h) < 0"
    using that p by (simp add: fb_close_def split_beta)
  have succeed: "fb_close cfg vt lock_ret (fb, h) filep =
              Done (fst (hook h), (fb\<lparr>crefs := crefs fb - 1\<rparr>, snd (hook h)),
                    filep\<lparr>f_priv := None\<rparr>, [HwClose])"
    if "0 \<le> lock_ret \<and> crefs fb = 1 \<and> vt_close vt = Some hook \<and> 0 \<le> fst (hook h)"
    using that p by (simp add: fb_close_def split_beta)
  have plain: "fb_close cfg vt lock_ret (fb, h) filep =
              Done (lock_ret, (fb\<lparr>crefs := crefs fb - 1\<rparr>, h), filep\<lparr>f_priv := None\<rparr>, [])"
    if c: "0 \<le> lock_ret \<and> ((crefs fb = 1 \<and> vt_close vt = None) \<or> 1 < sint (crefs fb))"
  proof -
    from c have l: "0 \<le> lock_ret" by simp
    from c have pos: "0 < sint (crefs fb)" by auto
    from c have "crefs fb = 1 \<longrightarrow> vt_close vt = None" by auto
    with pos p l show ?thesis by (auto simp: fb_close_def)
  qed
  have locked: "fb_close cfg vt lock_ret (fb, h) filep = Done (lock_ret, (fb, h), filep, [])"
    if "lock_ret < 0"
    using that p by (simp add: fb_close_def)
  from fail succeed plain locked show ?thesis by blast
qed

theorem fb_close_hook_result_witness:
  "fb_close example_cfg (example_hw_hooks 0 (- 5)) 0 (example_dev\<lparr>crefs := 1\<rparr>, 0) example_file =
     Done (- 5, (example_dev\<lparr>crefs := 1\<rparr>, 1), example_file, [HwClose]) \<and>
   fb_close example_cfg (example_hw_hooks 0 0) 0 (example_dev\<lparr>crefs := 1\<rparr>, 0) example_file =
     Done (0, (example_dev\<lparr>crefs := 0\<rparr>, 1), example_file\<lparr>f_priv := None\<rparr>, [HwClose]) \<and>
   fb_close example_cfg example_hw 0 (example_dev\<lparr>crefs := 2\<rparr>, 0) example_file =
     Done (0, (example_dev\<lparr>crefs := 1\<rparr>, 0), example_file\<lparr>f_priv := None\<rparr>, []) \<and>
   fb_close example_cfg (example_hw_hooks 0 0) (- 4) (example_dev\<lparr>crefs := 1\<rparr>, 0) example_file =
     Done (- 4, (example_dev\<lparr>crefs := 1\<rparr>, 0), example_file, [])"
proof -
  have p: "f_priv example_file = Some \<lparr>overlay = FB_NO_OVERLAY\<rparr>"
    by (simp add: example_file_def)
  from fb_close_hook_result [OF p, of 0 "example_dev\<lparr>crefs := 1\<rparr>" "example_hw_hooks 0 (- 5)"
      "\<lambda>h. (- 5, Suc h)" 0 example_cfg]
  have a: "fb_close example_cfg (example_hw_hooks 0 (- 5)) 0 (example_dev\<lparr>crefs := 1\<rparr>, 0)
             example_file = Done (- 5, (example_dev\<lparr>crefs := 1\<rparr>, 1), example_file, [HwClose])"
    by (simp add: example_hw_hooks_def)
  from fb_close_hook_result [OF p, of 0 "example_dev\<lparr>crefs := 1\<rparr>" "example_hw_hooks 0 0"
      "\<lambda>h. (0, Suc h)" 0 example_cfg]
  have b: "fb_close example_cfg (example_hw_hooks 0 0) 0 (example_dev\<lparr>crefs := 1\<rparr>, 0)
             example_file =
           Done (0, (example_dev\<lparr>crefs := 0\<rparr>, 1), example_file\<lparr>f_priv := None\<rparr>, [HwClose])"
    by (simp add: example_hw_hooks_def)
  from fb_close_hook_result [OF p, of 0 "example_dev\<lparr>crefs := 2\<rparr>" example_hw
      undefined 0 example_cfg]
  have c: "fb_close example_cfg example_hw 0 (example_dev\<lparr>crefs := 2\<rparr>, 0) example_file =
           Done (0, (example_dev\<lparr>crefs := 1\<rparr>, 0), example_file\<lparr>f_priv := None\<rparr>, [])"
    by simp
  from fb_close_hook_result [OF p, of "- 4" "example_dev\<lparr>crefs := 1\<rparr>" "example_hw_hooks 0 0"
      "\<lambda>h. (0, Suc h)" 0 example_cfg]
  have d: "fb_close example_cfg (example_hw_hooks 0 0) (- 4) (example_dev\<lparr>crefs := 1\<rparr>, 0)
             example_file = Done (- 4, (example_dev\<lparr>crefs := 1\<rparr>, 0), example_file, [])"
    by simp
  from a b c d show ?thesis by simp
qed

text \<open>
  A close that does not get the device lock neither decrements the counter nor frees the
  per-open-file state, although the hook is absent and the counter exceeds 1: the call
  returns the value of the lock, here \<open>-4\<close>, and the counter is 2 as before.
\<close>

theorem fb_close_lock_fails_counterexample:
  "vt_close example_hw = None \<and>
   fb_close example_cfg example_hw (- 4) (example_dev\<lparr>crefs := 2\<rparr>, 0) example_file =
     Done (- 4, (example_dev\<lparr>crefs := 2\<rparr>, 0), example_file, []) \<and>
   crefs (example_dev\<lparr>crefs := 2\<rparr>) = 2 \<and> f_priv example_file \<noteq> None"
  by (simp add: fb_close_def example_hw_def example_file_def example_cfg_def)

subsection \<open>Facts about the range of a transfer\<close>

lemma transfer_size:
  fixes start len L :: "32 word"
  assumes nowrap: "unat start + unat len < 2 ^ 32" and lt: "start < L"
  shows "unat ((if start + len \<ge> L then L else start + len) - start) =
           min (unat len) (unat L - unat start)"
proof -
  have e: "unat (start + len) = unat start + unat len"
    using nowrap by (simp add: unat_add_lem [THEN iffD1])
  from lt have sl: "unat start < unat L" by (simp add: word_less_nat_alt)
  show ?thesis
  proof (cases "start + len \<ge> L")
    case True
    then have "unat L \<le> unat start + unat len" by (simp add: word_le_nat_alt e)
    moreover have "unat (L - start) = unat L - unat start"
      using lt by (simp add: unat_sub word_le_nat_alt word_less_nat_alt)
    ultimately show ?thesis using True by simp
  next
    case False
    then have "unat start + unat len < unat L" by (simp add: word_le_nat_alt e not_le)
    then show ?thesis using False by simp
  qed
qed

lemma sint_small:
  fixes w :: "32 word"
  assumes "unat w < 2 ^ 31"
  shows "sint w = int (unat w)"
proof -
  from assms have "int (unat w) < 2 ^ 31" by (metis of_nat_less_iff of_nat_numeral of_nat_power)
  then have u: "uint w < 2 ^ 31" by simp
  have "sint w = signed_take_bit (LENGTH(32) - Suc 0) (uint w)" by (rule sint_uint)
  also have "\<dots> = uint w"
  proof (rule signed_take_bit_int_eq_self)
    have "0 \<le> uint w" by simp
    moreover have "- (2 ^ (LENGTH(32) - Suc 0)) \<le> (0::int)" by simp
    ultimately show "- (2 ^ (LENGTH(32) - Suc 0)) \<le> uint w" by (rule order_trans [rotated])
    from u show "uint w < 2 ^ (LENGTH(32) - Suc 0)" by simp
  qed
  finally show ?thesis by simp
qed

subsection \<open>C9: write at the end of the buffer\<close>

text \<open>
  C9 says that a write that starts inside a buffer of length \<open>L\<close> and would pass its end
  is truncated to the space that remains. The code computes \<open>end = start + len\<close> on
  \<open>size_t\<close> and clamps \<open>end\<close> only when it is at least \<open>L\<close>. For a length so large that
  the sum wraps, \<open>end\<close> lands below \<open>start\<close>, nothing is clamped, and the size of the copy
  is the whole length: at offset 95 of a buffer of 100 bytes, a write of \<open>SIZE_MAX\<close> bytes
  asks \<open>memcpy\<close> for 4294967295 bytes instead of 5, moves the position back to 94 and
  returns \<open>-1\<close>.
\<close>

theorem fb_write_length_wraps:
  "fb_write example_cfg example_hw example_dev (example_file\<lparr>f_pos := 95\<rparr>) 4294967295 =
     Done (- 1, example_file\<lparr>f_pos := 94\<rparr>, Some (95, 4294967295))"
  by (simp add: fb_write_def example_file_def example_primary_panelinfo)

text \<open>
  X1. Where \<open>start + len\<close> does not wrap (and the buffer is shorter than \<open>2^31\<close> bytes,
  so that the count fits the \<open>ssize_t\<close> returned): a write at or past the end of the
  buffer returns \<open>-EFBIG\<close> and changes nothing; a write inside the buffer copies
  \<open>min len (L - offset)\<close> bytes at the offset, returns that count and advances the
  position by it.
\<close>

theorem fb_write_in_range:
  assumes priv: "f_priv filep = Some priv"
    and pnl: "fb_get_panelinfo cfg vt fb (overlay priv) = Done (OK, Some pnl)"
    and nowrap: "unat (f_pos filep) + unat len < 2 ^ 32"
    and small: "unat (fblen pnl) < 2 ^ 31"
  shows "fb_write cfg vt fb filep len =
           (if f_pos filep \<ge> fblen pnl then Done (- EFBIG, filep, None)
            else (let n = min (unat len) (unat (fblen pnl) - unat (f_pos filep))
                  in Done (int n, filep\<lparr>f_pos := f_pos filep + of_nat n\<rparr>,
                           Some (unat (f_pos filep), n))))"
proof (cases "f_pos filep \<ge> fblen pnl")
  case True
  then show ?thesis by (simp add: fb_write_def priv pnl)
next
  case False
  then have lt: "f_pos filep < fblen pnl" by simp
  define sz where "sz = (if f_pos filep + len \<ge> fblen pnl then fblen pnl
                         else f_pos filep + len) - f_pos filep"
  let ?n = "min (unat len) (unat (fblen pnl) - unat (f_pos filep))"
  from transfer_size [OF nowrap lt] have n: "unat sz = ?n" by (simp only: sz_def)
  have "sz = of_nat (unat sz)" by simp
  with n have w: "of_nat ?n = sz" by simp
  from n small have b: "unat sz < 2 ^ 31" by simp
  have s: "sint sz = int ?n"
    unfolding n [symmetric] by (rule sint_small [OF b])
  have fw: "fb_write cfg vt fb filep len =
              Done (sint sz, filep\<lparr>f_pos := f_pos filep + sz\<rparr>, Some (unat (f_pos filep), unat sz))"
    using False by (simp add: fb_write_def priv pnl Let_def sz_def)
  show ?thesis
    using False by (simp only: fw s n w Let_def if_False)
qed

theorem fb_write_in_range_witness:
  "fb_write example_cfg example_hw example_dev (example_file\<lparr>f_pos := 95\<rparr>) 10 =
     Done (5, example_file\<lparr>f_pos := 100\<rparr>, Some (95, 5)) \<and>
   fb_write example_cfg example_hw example_dev (example_file\<lparr>f_pos := 100\<rparr>) 10 =
     Done (- EFBIG, example_file\<lparr>f_pos := 100\<rparr>, None)"
proof -
  have p: "f_priv (example_file\<lparr>f_pos := x\<rparr>) = Some \<lparr>overlay = FB_NO_OVERLAY\<rparr>" for x
    by (simp add: example_file_def)
  have g: "fb_get_panelinfo example_cfg example_hw example_dev
             (overlay \<lparr>overlay = FB_NO_OVERLAY\<rparr>) =
           Done (OK, Some \<lparr>fbmem = 4096, fblen = 100, fbcount = 2, bpp = 8\<rparr>)"
    by (simp add: example_primary_panelinfo)
  have a: "fb_write example_cfg example_hw example_dev (example_file\<lparr>f_pos := 95\<rparr>) 10 =
     Done (5, example_file\<lparr>f_pos := 100\<rparr>, Some (95, 5))"
    using fb_write_in_range [OF p g, of 95 10] by simp
  have b: "fb_write example_cfg example_hw example_dev (example_file\<lparr>f_pos := 100\<rparr>) 10 =
     Done (- EFBIG, example_file\<lparr>f_pos := 100\<rparr>, None)"
    using fb_write_in_range [OF p g, of 100 10] by simp
  from a b show ?thesis by (rule conjI)
qed

subsection \<open>C10: read at the end of the buffer\<close>

text \<open>
  C10 says that a read that starts inside a buffer of length \<open>L\<close> is clamped to the bytes
  up to \<open>L\<close>. \<open>fb_read\<close> computes its range as \<open>fb_write\<close> does, with the same sum that
  can wrap: at offset 99 of a buffer of 100 bytes, a read of \<open>SIZE_MAX\<close> bytes asks
  \<open>memcpy\<close> for 4294967295 bytes instead of 1, moves the position back to 98 and returns
  \<open>-1\<close>.
\<close>

theorem fb_read_length_wraps:
  "fb_read example_cfg example_hw example_dev (example_file\<lparr>f_pos := 99\<rparr>) 4294967295 =
     Done (- 1, example_file\<lparr>f_pos := 98\<rparr>, Some (99, 4294967295))"
  by (simp add: fb_read_def example_file_def example_primary_panelinfo)

text \<open>
  X2. Where \<open>start + len\<close> does not wrap (and the buffer is shorter than \<open>2^31\<close> bytes):
  a read at or past the end of the buffer returns 0 and changes nothing; a read inside the
  buffer copies \<open>min len (L - offset)\<close> bytes from the offset, returns that count and
  advances the position by it.
\<close>

theorem fb_read_in_range:
  assumes priv: "f_priv filep = Some priv"
    and pnl: "fb_get_panelinfo cfg vt fb (overlay priv) = Done (OK, Some pnl)"
    and nowrap: "unat (f_pos filep) + unat len < 2 ^ 32"
    and small: "unat (fblen pnl) < 2 ^ 31"
  shows "fb_read cfg vt fb filep len =
           (if f_pos filep \<ge> fblen pnl then Done (0, filep, None)
            else (let n = min (unat len) (unat (fblen pnl) - unat (f_pos filep))
                  in Done (int n, filep\<lparr>f_pos := f_pos filep + of_nat n\<rparr>,
                           Some (unat (f_pos filep), n))))"
proof (cases "f_pos filep \<ge> fblen pnl")
  case True
  then show ?thesis by (simp add: fb_read_def priv pnl)
next
  case False
  then have lt: "f_pos filep < fblen pnl" by simp
  define sz where "sz = (if f_pos filep + len \<ge> fblen pnl then fblen pnl
                         else f_pos filep + len) - f_pos filep"
  let ?n = "min (unat len) (unat (fblen pnl) - unat (f_pos filep))"
  from transfer_size [OF nowrap lt] have n: "unat sz = ?n" by (simp only: sz_def)
  have "sz = of_nat (unat sz)" by simp
  with n have w: "of_nat ?n = sz" by simp
  from n small have b: "unat sz < 2 ^ 31" by simp
  have s: "sint sz = int ?n"
    unfolding n [symmetric] by (rule sint_small [OF b])
  have fr: "fb_read cfg vt fb filep len =
              Done (sint sz, filep\<lparr>f_pos := f_pos filep + sz\<rparr>, Some (unat (f_pos filep), unat sz))"
    using False by (simp add: fb_read_def priv pnl Let_def sz_def)
  show ?thesis
    using False by (simp only: fr s n w Let_def if_False)
qed

theorem fb_read_in_range_witness:
  "fb_read example_cfg example_hw example_dev (example_file\<lparr>f_pos := 99\<rparr>) 10 =
     Done (1, example_file\<lparr>f_pos := 100\<rparr>, Some (99, 1)) \<and>
   fb_read example_cfg example_hw example_dev (example_file\<lparr>f_pos := 100\<rparr>) 10 =
     Done (0, example_file\<lparr>f_pos := 100\<rparr>, None)"
proof -
  have p: "f_priv (example_file\<lparr>f_pos := x\<rparr>) = Some \<lparr>overlay = FB_NO_OVERLAY\<rparr>" for x
    by (simp add: example_file_def)
  have g: "fb_get_panelinfo example_cfg example_hw example_dev
             (overlay \<lparr>overlay = FB_NO_OVERLAY\<rparr>) =
           Done (OK, Some \<lparr>fbmem = 4096, fblen = 100, fbcount = 2, bpp = 8\<rparr>)"
    by (simp add: example_primary_panelinfo)
  have a: "fb_read example_cfg example_hw example_dev (example_file\<lparr>f_pos := 99\<rparr>) 10 =
     Done (1, example_file\<lparr>f_pos := 100\<rparr>, Some (99, 1))"
    using fb_read_in_range [OF p g, of 99 10] by simp
  have b: "fb_read example_cfg example_hw example_dev (example_file\<lparr>f_pos := 100\<rparr>) 10 =
     Done (0, example_file\<lparr>f_pos := 100\<rparr>, None)"
    using fb_read_in_range [OF p g, of 100 10] by simp
  from a b show ?thesis by (rule conjI)
qed

end
